theory Spec2Isabelle
  imports Main "HOL-Library.AList" "HOL-Library.Multiset"
begin

section \<open>JavaScript values\<close>

text \<open>
  The values that flow through the validation code untyped (\<open>unknown\<close> in the
  TypeScript): rule arguments, parameter defaults, validator results, the argument of
  \<open>setError\<close>. Objects are opaque references.
\<close>

datatype jsval =
    JUndefined
  | JNull
  | JBool bool
  | JNum int
  | JStr string
  | JObj nat

fun typeof :: "jsval \<Rightarrow> string" where
  "typeof JUndefined = ''undefined''"
| "typeof JNull = ''object''"
| "typeof (JBool _) = ''boolean''"
| "typeof (JNum _) = ''number''"
| "typeof (JStr _) = ''string''"
| "typeof (JObj _) = ''object''"

text \<open>\<open>!s\<close> on an optional string: true for \<open>undefined\<close> and for the empty string.\<close>

fun falsy :: "string option \<Rightarrow> bool" where
  "falsy None = True"
| "falsy (Some s) = (s = [])"

text \<open>\<open>a ?? b\<close>: \<open>b\<close> when \<open>a\<close> is \<open>undefined\<close> or \<open>null\<close>.\<close>

fun nullish :: "jsval \<Rightarrow> jsval \<Rightarrow> jsval" where
  "nullish JUndefined b = b"
| "nullish JNull b = b"
| "nullish a b = a"

datatype exn = TypeError string | Error string

section \<open>Validation rules\<close>

text \<open>
  \<open>ValidationRuleSettings\<close>: \<open>{key, type?, args?, validateWhen?}\<close>. An argument object
  is an association list with unique keys, in insertion order. \<open>validateWhen\<close> is kept
  as the predicate on the form data that \<open>needValidate\<close> evaluates.
\<close>

type_synonym jsobject = "(string \<times> jsval) list"

record 'fd ValidationRuleSettings =
  key :: string
  type :: "string option"
  args :: "jsobject option"
  validateWhen :: "('fd option \<Rightarrow> bool) option"

subsection \<open>The priority comparator\<close>

text \<open>
  \<^verbatim>\<open>
  //The 'required' rule must be implemented first, because it is a root for next
  //The 'code' rule (used refine under the hood) must be implemented last
  function byPriority(_: ValidationRuleSettings, b: ValidationRuleSettings) {
    if (b.key === 'code') return -1
    if (b.key === 'required') return 1
    return 0
  }
  \<close>
\<close>

definition byPriority ::
  "'fd ValidationRuleSettings \<Rightarrow> 'fd ValidationRuleSettings \<Rightarrow> int" where
  "byPriority a b =
     (if key b = ''code'' then - 1
      else if key b = ''required'' then 1
      else 0)"

subsection \<open>\<open>Array.prototype.sort\<close>\<close>

text \<open>
  \<open>parse\<close> sorts with the engine's \<open>Array.prototype.sort\<close>. ECMAScript fixes the
  result only for a consistent comparator, which \<open>byPriority\<close> is not (it never looks
  at its first argument), so the result is the one of the engine's algorithm. The
  functions below follow V8's implementation (\<open>third_party/v8/builtins/array-sort.tq\<close>,
  the engine of Node.js and Chrome) on arrays of fewer than 64 elements, where
  \<open>ComputeMinRunLength\<close> returns the length itself and \<open>ArrayTimSortImpl\<close> is one call
  of \<open>CountAndMakeRun\<close> followed by one call of \<open>BinaryInsertionSort\<close>, with no merge.

  \<open>CountAndMakeRun(0, n)\<close>: the first comparison is \<open>comparefn(a[1], a[0])\<close>; the
  run is descending when it is negative. The run is extended while
  \<open>comparefn(a[idx], a[idx - 1])\<close> keeps the direction, and a descending run is
  reversed in place.
\<close>

fun run_rest :: "('a \<Rightarrow> 'a \<Rightarrow> int) \<Rightarrow> bool \<Rightarrow> 'a \<Rightarrow> 'a list \<Rightarrow> nat" where
  "run_rest comparefn isDescending previousElement [] = 0"
| "run_rest comparefn isDescending previousElement (currentElement # xs) =
     (let order = comparefn currentElement previousElement in
      if (if isDescending then order \<ge> 0 else order < 0) then 0
      else Suc (run_rest comparefn isDescending currentElement xs))"

fun CountAndMakeRun :: "('a \<Rightarrow> 'a \<Rightarrow> int) \<Rightarrow> 'a list \<Rightarrow> nat \<times> 'a list" where
  "CountAndMakeRun comparefn [] = (0, [])"
| "CountAndMakeRun comparefn [x] = (1, [x])"
| "CountAndMakeRun comparefn (elementHigh # elementLow # xs) =
     (let order = comparefn elementLow elementHigh;
          isDescending = order < 0;
          runLength = 2 + run_rest comparefn isDescending elementLow xs;
          workArray = elementHigh # elementLow # xs
      in (runLength,
          if isDescending then rev (take runLength workArray) @ drop runLength workArray
          else workArray))"

text \<open>
  The binary search of \<open>BinaryInsertionSort\<close>: \<open>comparefn(pivot, a[mid])\<close>, left half
  when negative, right half otherwise.
\<close>

function insertion_point ::
  "('a \<Rightarrow> 'a \<Rightarrow> int) \<Rightarrow> 'a list \<Rightarrow> 'a \<Rightarrow> nat \<Rightarrow> nat \<Rightarrow> nat" where
  "insertion_point comparefn a pivot left right =
     (if left < right then
        (let mid = left + (right - left) div 2;
             order = comparefn pivot (a ! mid)
         in if order < 0 then insertion_point comparefn a pivot left mid
            else insertion_point comparefn a pivot (mid + 1) right)
      else left)"
  by pat_completeness auto
termination
  by (relation "measure (\<lambda>(comparefn, a, pivot, left, right). right - left)") auto

text \<open>
  \<open>BinaryInsertionSort(0, start, n)\<close>: \<open>run\<close> is \<open>a[0..start)\<close>, the second list is
  \<open>a[start..n)\<close>; each pivot is inserted at the position the binary search finds, the
  elements from there on moving one place up.
\<close>

fun BinaryInsertionSort :: "('a \<Rightarrow> 'a \<Rightarrow> int) \<Rightarrow> 'a list \<Rightarrow> 'a list \<Rightarrow> 'a list" where
  "BinaryInsertionSort comparefn run [] = run"
| "BinaryInsertionSort comparefn run (pivot # xs) =
     (let left = insertion_point comparefn run pivot 0 (length run)
      in BinaryInsertionSort comparefn (take left run @ pivot # drop left run) xs)"

definition ArrayTimSort :: "('a \<Rightarrow> 'a \<Rightarrow> int) \<Rightarrow> 'a list \<Rightarrow> 'a list" where
  "ArrayTimSort comparefn a =
     (if length a < 2 then a
      else (case CountAndMakeRun comparefn a of
              (currentRunLength, workArray) \<Rightarrow>
                if currentRunLength < length a
                then BinaryInsertionSort comparefn
                       (take currentRunLength workArray) (drop currentRunLength workArray)
                else workArray))"

text \<open>
  For comparison, the insertion sort that V8 before version 7.0 ran on arrays of at most
  ten elements: each element moves down past the elements \<open>tmp\<close> below it while
  \<open>comparefn(tmp, element) > 0\<close>. The list \<open>below\<close> is the sorted part, nearest
  element first.
\<close>

fun insert_back :: "('a \<Rightarrow> 'a \<Rightarrow> int) \<Rightarrow> 'a \<Rightarrow> 'a list \<Rightarrow> 'a list" where
  "insert_back comparefn element [] = [element]"
| "insert_back comparefn element (tmp # below) =
     (let order = comparefn tmp element in
      if order > 0 then tmp # insert_back comparefn element below
      else element # tmp # below)"

definition InsertionSort :: "('a \<Rightarrow> 'a \<Rightarrow> int) \<Rightarrow> 'a list \<Rightarrow> 'a list" where
  "InsertionSort comparefn a = rev (fold (insert_back comparefn) a [])"

subsection \<open>The rule registries\<close>

text \<open>
  A declared parameter \<open>{key, default?}\<close>; a parameter without default has
  \<open>pdefault = JUndefined\<close>. (\<open>pkey\<close> is the parameter's \<open>key\<close>.)
\<close>

record ValidationRuleParameter =
  pkey :: string
  pdefault :: jsval

text \<open>
  A validator returns a value or a promise: \<open>Promise v\<close> is a promise fulfilled
  with \<open>v\<close>. Validators are the caller's functions; they are taken to return.
\<close>

datatype vresult = Plain jsval | Promise jsval

type_synonym ('st, 'fd) RuleValidator =
  "jsval \<Rightarrow> 'st \<Rightarrow> jsobject \<Rightarrow> 'fd option \<Rightarrow> vresult"

text \<open>
  An entry of the built-in registry is \<open>{validatorFactory, params}\<close>, one of the custom
  registry \<open>{validate, params}\<close> (\<open>iparams\<close> and \<open>cparams\<close> are their \<open>params\<close>).
  \<open>FormViewerValidationRules\<close> is \<open>{internal, custom?}\<close>.
\<close>

record ('st, 'fd) InternalRuleDefinition =
  validatorFactory :: "jsobject \<Rightarrow> ('st, 'fd) RuleValidator"
  iparams :: "ValidationRuleParameter list option"

record ('st, 'fd) CustomRuleDefinition =
  validate :: "('st, 'fd) RuleValidator"
  cparams :: "ValidationRuleParameter list option"

record ('st, 'fd) FormViewerValidationRules =
  internal :: "string \<rightharpoonup> ('st, 'fd) InternalRuleDefinition"
  custom :: "(string \<rightharpoonup> ('st, 'fd) CustomRuleDefinition) option"

record ('st, 'fd) ValidatorWithSettings =
  settings :: "'fd ValidationRuleSettings"
  validator :: "('st, 'fd) RuleValidator"
  params :: "ValidationRuleParameter list option"

record 'fd BoundValueSchema =
  validations :: "'fd ValidationRuleSettings list option"

subsection \<open>\<open>parse\<close>\<close>

definition noOpValidator :: "('st, 'fd) RuleValidator" where
  "noOpValidator = (\<lambda>value store args formData. Plain (JBool True))"

definition squote :: "string \<Rightarrow> string" where
  "squote s = CHR 0x27 # s @ [CHR 0x27]"

definition cannot_find_rule :: "string \<Rightarrow> string \<Rightarrow> string" where
  "cannot_find_rule k t = ''Cannot find rule, key: '' @ squote k @ '', type: '' @ squote t"

text \<open>
  \<^verbatim>\<open>
  const toValidator = (rule: ValidationRuleSettings) => {
    if (!rule.type) {
      const definition = validationRules.internal[rule.key]
      const validator = definition.validatorFactory(rule.args ?? {})
      return {settings: rule, validator, params: definition.params}
    }
    if (rule.type === 'custom') {
      const definition = validationRules.custom?.[rule.key]
      if (definition) return {settings: rule, validator: definition.validate, params: definition.params}
    }
    console.warn(`Cannot find rule, key: '${rule.key}', type: '${rule.type}'`)
    return {settings: rule, validator: noOpValidator}
  }
  \<close>
  The console is threaded through as the list of the warnings written so far. Reading
  \<open>validatorFactory\<close> of an absent entry is JavaScript's \<open>TypeError\<close>.
\<close>

definition toValidator ::
  "('st, 'fd) FormViewerValidationRules \<Rightarrow> 'fd ValidationRuleSettings \<Rightarrow> string list
   \<Rightarrow> (exn + ('st, 'fd) ValidatorWithSettings) \<times> string list" where
  "toValidator validationRules rule console =
     (if falsy (type rule) then
        (case internal validationRules (key rule) of
           None \<Rightarrow>
             (Inl (TypeError (''Cannot read properties of undefined (reading ''
                              @ squote ''validatorFactory'' @ '')'')),
              console)
         | Some defn \<Rightarrow>
             (Inr \<lparr>settings = rule,
                   validator = validatorFactory defn (case args rule of None \<Rightarrow> [] | Some a \<Rightarrow> a),
                   params = iparams defn\<rparr>,
              console))
      else
        (case (if type rule = Some ''custom''
               then (case custom validationRules of None \<Rightarrow> None | Some c \<Rightarrow> c (key rule))
               else None) of
           Some defn \<Rightarrow>
             (Inr \<lparr>settings = rule, validator = validate defn, params = cparams defn\<rparr>, console)
         | None \<Rightarrow>
             (Inr \<lparr>settings = rule, validator = noOpValidator, params = None\<rparr>,
              console @ [cannot_find_rule (key rule) (case type rule of None \<Rightarrow> ''undefined'' | Some t \<Rightarrow> t)])))"

text \<open>\<open>rules.map(toValidator)\<close>: an exception ends the mapping.\<close>

fun map_toValidator ::
  "('st, 'fd) FormViewerValidationRules \<Rightarrow> 'fd ValidationRuleSettings list \<Rightarrow> string list
   \<Rightarrow> (exn + ('st, 'fd) ValidatorWithSettings list) \<times> string list" where
  "map_toValidator validationRules [] console = (Inr [], console)"
| "map_toValidator validationRules (rule # rules) console =
     (case toValidator validationRules rule console of
        (Inl e, console') \<Rightarrow> (Inl e, console')
      | (Inr v, console') \<Rightarrow>
          (case map_toValidator validationRules rules console' of
             (Inl e, console'') \<Rightarrow> (Inl e, console'')
           | (Inr vs, console'') \<Rightarrow> (Inr (v # vs), console'')))"

text \<open>
  \<^verbatim>\<open>
  function parse(validationRules, schema?: BoundValueSchema): ValidatorWithSettings[] | undefined {
    if (!schema || !schema.validations || !schema.validations.length) return
    const rules = [...schema.validations].sort(byPriority)
    ...
    return rules.map(toValidator)
  }
  \<close>
  The engine's sort is the parameter \<open>sortfn\<close>; \<open>None\<close> is \<open>undefined\<close>.
\<close>

definition parse ::
  "(('fd ValidationRuleSettings \<Rightarrow> 'fd ValidationRuleSettings \<Rightarrow> int)
      \<Rightarrow> 'fd ValidationRuleSettings list \<Rightarrow> 'fd ValidationRuleSettings list)
   \<Rightarrow> ('st, 'fd) FormViewerValidationRules \<Rightarrow> 'fd BoundValueSchema option \<Rightarrow> string list
   \<Rightarrow> (exn + ('st, 'fd) ValidatorWithSettings list option) \<times> string list" where
  "parse sortfn validationRules schema console =
     (case schema of
        None \<Rightarrow> (Inr None, console)
      | Some s \<Rightarrow>
          (case validations s of
             None \<Rightarrow> (Inr None, console)
           | Some vs \<Rightarrow>
               if length vs = 0 then (Inr None, console)
               else
                 (let rules = sortfn byPriority vs in
                  case map_toValidator validationRules rules console of
                    (Inl e, console') \<Rightarrow> (Inl e, console')
                  | (Inr validators, console') \<Rightarrow> (Inr (Some validators), console'))))"

subsection \<open>The produced validation function\<close>

text \<open>
  Modelled from the spec: \<open>needValidate\<close> (\<open>utils/needValidate\<close>), which "evaluates
  the \<open>validateWhen\<close> predicate (if present) against a fresh snapshot of form data".
\<close>

definition needValidate :: "('fd option \<Rightarrow> bool) option \<Rightarrow> 'fd option \<Rightarrow> bool" where
  "needValidate when formData =
     (case when of None \<Rightarrow> True | Some predicate \<Rightarrow> predicate formData)"

text \<open>\<open>getFormData?.()\<close>: \<open>undefined\<close> when no getter was passed.\<close>

definition call_getFormData :: "(unit \<Rightarrow> 'fd) option \<Rightarrow> 'fd option" where
  "call_getFormData getFormData = (case getFormData of None \<Rightarrow> None | Some g \<Rightarrow> Some (g ()))"

text \<open>
  \<^verbatim>\<open>
  params?.filter(param => typeof param.default !== 'undefined')
    .map(param => args[param.key] = param.default)
  Object.assign(args, settings.args)
  \<close>
  Both write properties one after the other into the same object.
\<close>

definition assign_defaults :: "ValidationRuleParameter list option \<Rightarrow> jsobject \<Rightarrow> jsobject" where
  "assign_defaults ps target =
     (case ps of
        None \<Rightarrow> target
      | Some ps' \<Rightarrow>
          fold (\<lambda>param a. AList.update (pkey param) (pdefault param) a)
            (filter (\<lambda>param. typeof (pdefault param) \<noteq> ''undefined'') ps') target)"

definition Object_assign :: "jsobject \<Rightarrow> jsobject option \<Rightarrow> jsobject" where
  "Object_assign target source =
     (case source of
        None \<Rightarrow> target
      | Some src \<Rightarrow> fold (\<lambda>(k, v) a. AList.update k v a) src target)"

text \<open>The \<open>args\<close> object of one call: it starts as \<open>{}\<close>.\<close>

definition build_args :: "ValidationRuleParameter list option \<Rightarrow> jsobject option \<Rightarrow> jsobject" where
  "build_args ps explicit = Object_assign (assign_defaults ps []) explicit"

text \<open>\<open>args.message\<close>: \<open>undefined\<close> when the property is absent.\<close>

definition get_property :: "jsobject \<Rightarrow> string \<Rightarrow> jsval" where
  "get_property obj k = (case map_of obj k of None \<Rightarrow> JUndefined | Some v \<Rightarrow> v)"

text \<open>\<open>isPromise(result) ? await result : result\<close>\<close>

fun awaited :: "vresult \<Rightarrow> jsval" where
  "awaited (Plain v) = v"
| "awaited (Promise v) = v"

text \<open>
  A \<open>ValidationResult\<close> is \<open>{settings, message}\<close> (\<open>rsettings\<close> is its \<open>settings\<close>);
  the message is whatever value the cast \<open>as string\<close> lets through.
\<close>

record 'fd ValidationResult =
  rsettings :: "'fd ValidationRuleSettings"
  message :: jsval

text \<open>
  The state of the loop: the array \<open>validationResults\<close>, and the calls of validators
  made so far, each with the rule's settings and the \<open>args\<close> object it was given.
\<close>

record 'fd run_state =
  validationResults :: "'fd ValidationResult list"
  invocations :: "('fd ValidationRuleSettings \<times> jsobject) list"

text \<open>
  \<^verbatim>\<open>
  for (const {settings, validator, params} of validators) {
    const args: Record<string, unknown> = {}
    if (!needValidate(settings.validateWhen, getFormData?.())) continue
    params?.filter(...).map(...)
    Object.assign(args, settings.args)
    const result = validator(value, store, args, getFormData?.())
    const ruleResult = isPromise(result) ? await result : result
    if (ruleResult !== true) {
      validationResults.push({
        settings: settings,
        message: typeof ruleResult === 'string' ? ruleResult : args.message as string
      })
    }
  }
  \<close>
\<close>

fun validate_loop ::
  "jsval \<Rightarrow> 'st \<Rightarrow> (unit \<Rightarrow> 'fd) option \<Rightarrow> ('st, 'fd) ValidatorWithSettings list
   \<Rightarrow> 'fd run_state \<Rightarrow> 'fd run_state" where
  "validate_loop value store getFormData [] st = st"
| "validate_loop value store getFormData (v # vs) st =
     (if \<not> needValidate (validateWhen (settings v)) (call_getFormData getFormData)
      then validate_loop value store getFormData vs st
      else
        (let args' = build_args (params v) (args (settings v));
             result = validator v value store args' (call_getFormData getFormData);
             ruleResult = awaited result;
             st' = st\<lparr>invocations := invocations st @ [(settings v, args')]\<rparr>
         in validate_loop value store getFormData vs
              (if ruleResult \<noteq> JBool True
               then st'\<lparr>validationResults := validationResults st' @
                      [\<lparr>rsettings = settings v,
                        message = (if typeof ruleResult = ''string'' then ruleResult
                                   else get_property args' ''message'')\<rparr>]\<rparr>
               else st')))"

text \<open>
  \<^verbatim>\<open>
  function validatorsResolver(validationRules, schema?): ResolvedValidator {
    const validators = parse(validationRules, schema)
    return async (value, store, getFormData) => {
      if (!validators) return
      const validationResults: ValidationResult[] = []
      for ... 
      return validationResults
    }
  }
  \<close>
  The produced function gives \<open>None\<close> for \<open>undefined\<close>, and otherwise the final state
  of the loop, whose \<open>validationResults\<close> is the array the promise resolves to.
\<close>

type_synonym ('st, 'fd) ResolvedValidator =
  "jsval \<Rightarrow> 'st \<Rightarrow> (unit \<Rightarrow> 'fd) option \<Rightarrow> 'fd run_state option"

definition resolved ::
  "('st, 'fd) ValidatorWithSettings list option \<Rightarrow> ('st, 'fd) ResolvedValidator" where
  "resolved validators =
     (\<lambda>value store getFormData.
        case validators of
          None \<Rightarrow> None
        | Some vs \<Rightarrow>
            Some (validate_loop value store getFormData vs
                    \<lparr>validationResults = [], invocations = []\<rparr>))"

definition validatorsResolver ::
  "(('fd ValidationRuleSettings \<Rightarrow> 'fd ValidationRuleSettings \<Rightarrow> int)
      \<Rightarrow> 'fd ValidationRuleSettings list \<Rightarrow> 'fd ValidationRuleSettings list)
   \<Rightarrow> ('st, 'fd) FormViewerValidationRules \<Rightarrow> 'fd BoundValueSchema option \<Rightarrow> string list
   \<Rightarrow> (exn + ('st, 'fd) ResolvedValidator) \<times> string list" where
  "validatorsResolver sortfn validationRules schema console =
     (case parse sortfn validationRules schema console of
        (Inl e, console') \<Rightarrow> (Inl e, console')
      | (Inr validators, console') \<Rightarrow> (Inr (resolved validators), console'))"

section \<open>The reactive field\<close>

subsection \<open>The field's surroundings\<close>

text \<open>
  The model supplies the bound key, the value type and the default values. A property of
  the component store carries its value and whether it is a formula.

  Modelled from the spec: \<open>isComputedProperty\<close> (\<open>stores/ComponentStore\<close>), "whether
  the bound property is a formula rather than a literal"; here the flag \<open>computed\<close>.
\<close>

record Model =
  valued :: "string option"
  valueType :: "string option"
  defaultProps :: "(string \<rightharpoonup> jsval) option"

record ComponentProperty =
  prop_value :: jsval
  computed :: bool

record ComponentStore =
  store_key :: string
  props :: "string \<rightharpoonup> ComponentProperty"

record ComponentData =
  model :: Model
  store :: ComponentStore

text \<open>
  What happens outside the field object is recorded in a world: the trace of the
  events, whether the running code is inside a tracked derivation of MobX, the next
  Data Validator the factory will hand out, and the disposed flags of the two MobX
  reactions of the field. A Data Validator is known by its number; the factory
  \<open>createDataValidator\<close> returns a new one at each call. The event of a validator's
  \<open>dispose()\<close> records whether the call was tracked and which validator the field's
  \<open>dataValidator\<close> held at that moment.
\<close>

datatype Disposer = AutorunDisposer | DataValidatorDisposer | ReactionDisposer

datatype event =
    MakeAutoObservable
  | ValueSeeded jsval
  | AutorunCreated
  | ReactionCreated
  | ValidatorCreated nat
  | ValidatorAssigned nat
  | ValidatorDisposed nat bool "nat option"
  | DisposerCalled Disposer
  | AutorunStopped
  | ReactionStopped

record world =
  trace :: "event list"
  tracking :: bool
  next_validator :: nat
  autorun_disposed :: bool
  reaction_disposed :: bool

definition new_world :: world where
  "new_world = \<lparr>trace = [], tracking = False, next_validator = 0,
                 autorun_disposed = False, reaction_disposed = False\<rparr>"

definition emit :: "event \<Rightarrow> world \<Rightarrow> world" where
  "emit e w = w\<lparr>trace := trace w @ [e]\<rparr>"

text \<open>
  The class \<open>SimpleField\<close>. \<open>fvalue\<close>, \<open>fvalued\<close> and \<open>fvalueType\<close> are its
  members \<open>value\<close>, \<open>valued\<close> and \<open>valueType\<close>; the constructor's parameters are
  members too. \<open>calculateValue\<close> is taken with the second component of its result.
\<close>

record SimpleField =
  oldDataValidator :: "nat option"
  error :: "string option"
  touched :: bool
  fvalue :: jsval
  fvalued :: string
  fvalueType :: string
  dataValidator :: "nat option"
  disposers :: "Disposer list"
  componentData :: ComponentData
  calculateValue :: "ComponentStore \<Rightarrow> string \<Rightarrow> jsval"
  getInitialData :: "unit \<Rightarrow> jsval"
  deferFieldCalculation :: bool

subsection \<open>Derived properties\<close>

definition defaultValue :: "SimpleField \<Rightarrow> jsval" where
  "defaultValue this =
     (case defaultProps (model (componentData this)) of
        None \<Rightarrow> JUndefined
      | Some dp \<Rightarrow> (case dp (fvalued this) of None \<Rightarrow> JUndefined | Some v \<Rightarrow> v))"

definition initialValue :: "SimpleField \<Rightarrow> jsval" where
  "initialValue this =
     nullish (case props (store (componentData this)) (fvalued this) of
                None \<Rightarrow> JUndefined
              | Some p \<Rightarrow> prop_value p)
             (defaultValue this)"

definition initialDataValue :: "SimpleField \<Rightarrow> jsval" where
  "initialDataValue this = nullish (getInitialData this ()) (initialValue this)"

definition computedValue :: "SimpleField \<Rightarrow> jsval" where
  "computedValue this =
     (if deferFieldCalculation this then initialDataValue this
      else calculateValue this (store (componentData this)) (fvalued this))"

definition isComputed :: "SimpleField \<Rightarrow> bool" where
  "isComputed this =
     (case props (store (componentData this)) (fvalued this) of
        None \<Rightarrow> False
      | Some p \<Rightarrow> computed p)"

subsection \<open>The effect that recreates the Data Validator\<close>

definition createDataValidator :: "world \<Rightarrow> nat \<times> world" where
  "createDataValidator w =
     (next_validator w,
      emit (ValidatorCreated (next_validator w)) (w\<lparr>next_validator := Suc (next_validator w)\<rparr>))"

definition DataValidator_dispose :: "nat \<Rightarrow> SimpleField \<Rightarrow> world \<Rightarrow> world" where
  "DataValidator_dispose v this w = emit (ValidatorDisposed v (tracking w) (dataValidator this)) w"

text \<open>MobX's \<open>untracked(fn)\<close>: \<open>fn\<close> runs untracked, then tracking is as before.\<close>

definition untracked ::
  "(world \<Rightarrow> SimpleField \<times> world) \<Rightarrow> world \<Rightarrow> SimpleField \<times> world" where
  "untracked fn w =
     (case fn (w\<lparr>tracking := False\<rparr>) of
        (this', w') \<Rightarrow> (this', w'\<lparr>tracking := tracking w\<rparr>))"

text \<open>
  \<^verbatim>\<open>
  () => {
    this.dataValidator = this.createDataValidator(componentData, this.valueType,
      error => this.error = error)
    untracked(() => {
      this.#oldDataValidator?.dispose()
      this.#oldDataValidator = this.dataValidator
    })
  }
  \<close>
\<close>

definition setValidator :: "SimpleField \<Rightarrow> world \<Rightarrow> SimpleField \<times> world" where
  "setValidator this w =
     (case createDataValidator w of
        (v, w1) \<Rightarrow>
          (let this1 = this\<lparr>dataValidator := Some v\<rparr>;
               w2 = emit (ValidatorAssigned v) w1
           in untracked
                (\<lambda>w3.
                   (this1\<lparr>oldDataValidator := dataValidator this1\<rparr>,
                    (case oldDataValidator this1 of
                       None \<Rightarrow> w3
                     | Some old \<Rightarrow> DataValidator_dispose old this1 w3)))
                w2))"

text \<open>
  One run of the \<open>autorun\<close> reaction: the effect runs tracked; a disposed reaction
  does not run. MobX runs it once when \<open>autorun\<close> is called and again whenever
  something it read has changed.
\<close>

definition run_autorun :: "SimpleField \<Rightarrow> world \<Rightarrow> SimpleField \<times> world" where
  "run_autorun this w =
     (if autorun_disposed w then (this, w)
      else (case setValidator this (w\<lparr>tracking := True\<rparr>) of
              (this', w') \<Rightarrow> (this', w'\<lparr>tracking := tracking w\<rparr>)))"

fun fire_times :: "nat \<Rightarrow> SimpleField \<times> world \<Rightarrow> SimpleField \<times> world" where
  "fire_times 0 fw = fw"
| "fire_times (Suc n) fw = fire_times n (run_autorun (fst fw) (snd fw))"

subsection \<open>Construction\<close>

text \<open>
  \<^verbatim>\<open>
  if (!model.valued) throw new Error(`'model.valued' is falsy`)
  if (!model.valueType) throw new Error(`'model.typeOfValue' is undefined`)
  this.valued = model.valued
  this.valueType = model.valueType
  makeAutoObservable(this, ...)
  this.value = this.isComputed ? this.computedValue : this.initialDataValue
  this.#disposers = [autorun(...), () => this.dataValidator?.dispose()]
  this.#disposers.push(reaction(...))
  \<close>
  \<open>autorun\<close> runs its effect once before it returns.
\<close>

fun string_of :: "string option \<Rightarrow> string" where
  "string_of None = []"
| "string_of (Some s) = s"

definition SimpleField_new ::
  "ComponentData \<Rightarrow> (ComponentStore \<Rightarrow> string \<Rightarrow> jsval) \<Rightarrow> (unit \<Rightarrow> jsval) \<Rightarrow> bool \<Rightarrow> world
   \<Rightarrow> (exn + SimpleField) \<times> world" where
  "SimpleField_new cd calc gid defer w =
     (if falsy (valued (model cd)) then
        (Inl (Error (squote ''model.valued'' @ '' is falsy'')), w)
      else if falsy (valueType (model cd)) then
        (Inl (Error (squote ''model.typeOfValue'' @ '' is undefined'')), w)
      else
        (let this0 = \<lparr>oldDataValidator = None, error = None, touched = False,
                      fvalue = JUndefined,
                      fvalued = string_of (valued (model cd)),
                      fvalueType = string_of (valueType (model cd)),
                      dataValidator = None, disposers = [],
                      componentData = cd, calculateValue = calc, getInitialData = gid,
                      deferFieldCalculation = defer\<rparr>;
             w1 = emit MakeAutoObservable w;
             seed = (if isComputed this0 then computedValue this0 else initialDataValue this0);
             this1 = this0\<lparr>fvalue := seed\<rparr>;
             w2 = emit (ValueSeeded seed) w1;
             w3 = emit AutorunCreated (w2\<lparr>autorun_disposed := False\<rparr>)
         in case run_autorun this1 w3 of
              (this2, w4) \<Rightarrow>
                (let this3 = this2\<lparr>disposers := [AutorunDisposer, DataValidatorDisposer]\<rparr>;
                     w5 = emit ReactionCreated (w4\<lparr>reaction_disposed := False\<rparr>);
                     this4 = this3\<lparr>disposers := disposers this3 @ [ReactionDisposer]\<rparr>
                 in (Inr this4, w5))))"

subsection \<open>\<open>dispose\<close>\<close>

text \<open>
  \<^verbatim>\<open>
  dispose() {
    this.#disposers.forEach(dispose => dispose())
  }
  \<close>
  The disposer that \<open>autorun\<close> or \<open>reaction\<close> returned stops its reaction, once; the
  second registered disposer is \<open>() => this.dataValidator?.dispose()\<close>.
\<close>

fun call_disposer :: "SimpleField \<Rightarrow> Disposer \<Rightarrow> world \<Rightarrow> world" where
  "call_disposer this AutorunDisposer w =
     (let w' = emit (DisposerCalled AutorunDisposer) w in
      if autorun_disposed w' then w'
      else emit AutorunStopped (w'\<lparr>autorun_disposed := True\<rparr>))"
| "call_disposer this DataValidatorDisposer w =
     (let w' = emit (DisposerCalled DataValidatorDisposer) w in
      case dataValidator this of
        None \<Rightarrow> w'
      | Some v \<Rightarrow> DataValidator_dispose v this w')"
| "call_disposer this ReactionDisposer w =
     (let w' = emit (DisposerCalled ReactionDisposer) w in
      if reaction_disposed w' then w'
      else emit ReactionStopped (w'\<lparr>reaction_disposed := True\<rparr>))"

definition dispose :: "SimpleField \<Rightarrow> world \<Rightarrow> world" where
  "dispose this w = fold (call_disposer this) (disposers this) w"

subsection \<open>\<open>setError\<close>\<close>

text \<open>
  \<^verbatim>\<open>
  setError = (error: unknown) => {
    if (typeof error === 'string') {
      this.error = error
    } else if (typeof error === 'undefined' || error === null) {
      this.error = undefined
    } else {
      throw new Error(`Expected 'string | undefined | null' type, got '${typeof error}'`)
    }
  }
  \<close>
\<close>

fun as_string :: "jsval \<Rightarrow> string option" where
  "as_string (JStr s) = Some s"
| "as_string _ = None"

definition setError :: "jsval \<Rightarrow> SimpleField \<Rightarrow> exn + SimpleField" where
  "setError e this =
     (if typeof e = ''string'' then Inr (this\<lparr>error := as_string e\<rparr>)
      else if typeof e = ''undefined'' \<or> e = JNull then Inr (this\<lparr>error := None\<rparr>)
      else Inl (Error (''Expected '' @ squote ''string | undefined | null''
                         @ '' type, got '' @ squote (typeof e))))"

section \<open>What the specification expects\<close>

text \<open>
  The definitions of this section follow the words of the specification, not the code;
  the theorems compare them with the functions above.

  The rules a schema declares: none when the schema or its \<open>validations\<close> is absent.
\<close>

definition schema_rules :: "'fd BoundValueSchema option \<Rightarrow> 'fd ValidationRuleSettings list" where
  "schema_rules schema =
     (case schema of
        None \<Rightarrow> []
      | Some s \<Rightarrow> (case validations s of None \<Rightarrow> [] | Some vs \<Rightarrow> vs))"

text \<open>
  "Each declared parameter's default (only parameters whose default is defined)": the
  default declared for a key, the last one when a key is declared twice.
\<close>

definition declared_default :: "ValidationRuleParameter list option \<Rightarrow> string \<Rightarrow> jsval option" where
  "declared_default ps k =
     (case ps of
        None \<Rightarrow> None
      | Some ps' \<Rightarrow>
          (case filter (\<lambda>p. pkey p = k \<and> pdefault p \<noteq> JUndefined) ps' of
             [] \<Rightarrow> None
           | q # qs \<Rightarrow> Some (pdefault (last (q # qs)))))"

text \<open>
  The form data a rule is judged against: what the getter returns, when there is one.
\<close>

definition current_form_data :: "(unit \<Rightarrow> 'fd) option \<Rightarrow> 'fd option" where
  "current_form_data getFormData = map_option (\<lambda>g. g ()) getFormData"

text \<open>A rule passes when its validator returns \<open>true\<close>, at once or through a promise.\<close>

definition returns_true :: "vresult \<Rightarrow> bool" where
  "returns_true r = (r = Plain (JBool True) \<or> r = Promise (JBool True))"

text \<open>
  The failure one rule contributes, read off what its validator returns, a value or a
  promise of one: none when \<open>validateWhen\<close> evaluates false or the result is exactly
  \<open>true\<close>; otherwise one, whose message is "the result itself if it is a string, else
  the \<open>message\<close> argument". \<open>expected_calls\<close> are the calls of the rule's validator:
  one when the rule is due, none otherwise.
\<close>

definition expected_failures ::
  "jsval \<Rightarrow> 'st \<Rightarrow> (unit \<Rightarrow> 'fd) option \<Rightarrow> ('st, 'fd) ValidatorWithSettings
   \<Rightarrow> 'fd ValidationResult list" where
  "expected_failures value sto getFormData v =
     (let formData = current_form_data getFormData;
          a = build_args (params v) (args (settings v));
          supplied = (case map_of a ''message'' of None \<Rightarrow> JUndefined | Some m \<Rightarrow> m)
      in if needValidate (validateWhen (settings v)) formData then
           (case validator v value sto a formData of
              Plain (JBool True) \<Rightarrow> []
            | Promise (JBool True) \<Rightarrow> []
            | Plain (JStr s) \<Rightarrow> [\<lparr>rsettings = settings v, message = JStr s\<rparr>]
            | Promise (JStr s) \<Rightarrow> [\<lparr>rsettings = settings v, message = JStr s\<rparr>]
            | _ \<Rightarrow> [\<lparr>rsettings = settings v, message = supplied\<rparr>])
         else [])"

definition expected_calls ::
  "(unit \<Rightarrow> 'fd) option \<Rightarrow> ('st, 'fd) ValidatorWithSettings
   \<Rightarrow> ('fd ValidationRuleSettings \<times> jsobject) list" where
  "expected_calls getFormData v =
     (if needValidate (validateWhen (settings v)) (current_form_data getFormData)
      then [(settings v, build_args (params v) (args (settings v)))] else [])"

section \<open>Example inputs\<close>

text \<open>
  A built-in registry with the rules \<open>required\<close>, \<open>minLength\<close> and \<open>code\<close>, no
  custom registry, and some rule settings.
\<close>

definition plain_rule :: "string \<Rightarrow> unit ValidationRuleSettings" where
  "plain_rule k = \<lparr>key = k, type = None, args = None, validateWhen = None\<rparr>"

definition required_validator :: "(unit, unit) RuleValidator" where
  "required_validator = (\<lambda>value sto a formData. Plain (JBool (value \<noteq> JUndefined \<and> value \<noteq> JNull)))"

definition minLength_validator :: "(unit, unit) RuleValidator" where
  "minLength_validator =
     (\<lambda>value sto a formData.
        case (value, get_property a ''limit'') of
          (JStr s, JNum n) \<Rightarrow> Promise (if n \<le> int (length s) then JBool True else JStr ''Too short'')
        | _ \<Rightarrow> Promise (JBool False))"

definition example_rules :: "(unit, unit) FormViewerValidationRules" where
  "example_rules =
     \<lparr>internal =
        [''required'' \<mapsto>
           \<lparr>validatorFactory = (\<lambda>a. required_validator),
            iparams = Some [\<lparr>pkey = ''message'', pdefault = JStr ''Required''\<rparr>]\<rparr>,
         ''minLength'' \<mapsto>
           \<lparr>validatorFactory = (\<lambda>a. minLength_validator),
            iparams = Some [\<lparr>pkey = ''limit'', pdefault = JNum 3\<rparr>,
                            \<lparr>pkey = ''message'', pdefault = JUndefined\<rparr>]\<rparr>,
         ''code'' \<mapsto>
           \<lparr>validatorFactory = (\<lambda>a. noOpValidator), iparams = None\<rparr>],
      custom = None\<rparr>"

definition example_schema :: "unit ValidationRuleSettings list \<Rightarrow> unit BoundValueSchema option" where
  "example_schema rules = Some \<lparr>validations = Some rules\<rparr>"

definition initial_run_state :: "unit run_state" where
  "initial_run_state = \<lparr>validationResults = [], invocations = []\<rparr>"

definition minLength_5 :: "(unit, unit) ValidatorWithSettings" where
  "minLength_5 =
     \<lparr>settings = \<lparr>key = ''minLength'', type = None, args = Some [(''limit'', JNum 5)],
                   validateWhen = None\<rparr>,
      validator = minLength_validator,
      params = Some [\<lparr>pkey = ''limit'', pdefault = JNum 3\<rparr>,
                     \<lparr>pkey = ''message'', pdefault = JUndefined\<rparr>]\<rparr>"

definition subscribed :: "jsobject option \<Rightarrow> bool" where
  "subscribed formData =
     (case formData of
        None \<Rightarrow> True
      | Some d \<Rightarrow> map_of d ''subscribe'' = Some (JBool True))"

definition form_rule :: "string \<Rightarrow> jsobject ValidationRuleSettings" where
  "form_rule k = \<lparr>key = k, type = None, args = None, validateWhen = None\<rparr>"

definition when_subscribed :: "string \<Rightarrow> jsobject ValidationRuleSettings" where
  "when_subscribed k = \<lparr>key = k, type = None, args = None, validateWhen = Some subscribed\<rparr>"

definition form_required :: "(unit, jsobject) RuleValidator" where
  "form_required = (\<lambda>value store a formData. Plain (JBool (value \<noteq> JUndefined \<and> value \<noteq> JNull)))"

definition form_minLength :: "(unit, jsobject) RuleValidator" where
  "form_minLength =
     (\<lambda>value store a formData.
        case (value, map_of a ''limit'') of
          (JStr s, Some (JNum n)) \<Rightarrow>
            Promise (if n \<le> int (length s) then JBool True else JStr ''Too short'')
        | _ \<Rightarrow> Promise (JBool False))"

definition form_rules :: "(unit, jsobject) FormViewerValidationRules" where
  "form_rules =
     \<lparr>internal =
        [''required'' \<mapsto>
           \<lparr>validatorFactory = (\<lambda>a. form_required),
            iparams = Some [\<lparr>pkey = ''message'', pdefault = JStr ''Required''\<rparr>]\<rparr>,
         ''minLength'' \<mapsto>
           \<lparr>validatorFactory = (\<lambda>a. form_minLength),
            iparams = Some [\<lparr>pkey = ''limit'', pdefault = JNum 3\<rparr>]\<rparr>,
         ''code'' \<mapsto>
           \<lparr>validatorFactory = (\<lambda>a. noOpValidator), iparams = None\<rparr>],
      custom = None\<rparr>"

definition form_schema :: "jsobject ValidationRuleSettings list \<Rightarrow> jsobject BoundValueSchema option" where
  "form_schema rules = Some \<lparr>validations = Some rules\<rparr>"

definition subscribing :: "(unit \<Rightarrow> jsobject) option" where
  "subscribing = Some (\<lambda>u. [(''subscribe'', JBool True)])"

definition not_subscribing :: "(unit \<Rightarrow> jsobject) option" where
  "not_subscribing = Some (\<lambda>u. [(''subscribe'', JBool False)])"

definition required_when_subscribed :: "(unit, jsobject) ValidatorWithSettings" where
  "required_when_subscribed =
     \<lparr>settings = when_subscribed ''required'',
      validator = form_required,
      params = Some [\<lparr>pkey = ''message'', pdefault = JStr ''Required''\<rparr>]\<rparr>"

definition minLength_3 :: "(unit, jsobject) ValidatorWithSettings" where
  "minLength_3 =
     \<lparr>settings = form_rule ''minLength'',
      validator = form_minLength,
      params = Some [\<lparr>pkey = ''limit'', pdefault = JNum 3\<rparr>]\<rparr>"

definition result_keys :: "'fd run_state option \<Rightarrow> string list option" where
  "result_keys r = map_option (\<lambda>st. map (\<lambda>x. key (rsettings x)) (validationResults st)) r"

definition invoked_keys :: "'fd run_state option \<Rightarrow> string list option" where
  "invoked_keys r = map_option (\<lambda>st. map (\<lambda>x. key (fst x)) (invocations st)) r"

definition empty_type_rule :: "unit ValidationRuleSettings" where
  "empty_type_rule = \<lparr>key = ''required'', type = Some [], args = None, validateWhen = None\<rparr>"

definition other_type_rule :: "unit ValidationRuleSettings" where
  "other_type_rule = \<lparr>key = ''required'', type = Some ''internal'', args = None, validateWhen = None\<rparr>"

definition result_messages :: "'fd run_state option \<Rightarrow> jsval list option" where
  "result_messages r = map_option (\<lambda>st. map message (validationResults st)) r"

section \<open>Reading the trace\<close>

text \<open>
  The Data Validators a trace has created, those whose \<open>dispose()\<close> it has called,
  the registered disposers it has called, and the validators that are live: created and
  not disposed.
\<close>

fun created_of :: "event \<Rightarrow> nat list" where
  "created_of (ValidatorCreated v) = [v]"
| "created_of _ = []"

fun disposed_of :: "event \<Rightarrow> nat list" where
  "disposed_of (ValidatorDisposed v t c) = [v]"
| "disposed_of _ = []"

fun called_of :: "event \<Rightarrow> Disposer list" where
  "called_of (DisposerCalled d) = [d]"
| "called_of _ = []"

definition created :: "event list \<Rightarrow> nat list" where
  "created tr = concat (map created_of tr)"

definition disposed :: "event list \<Rightarrow> nat list" where
  "disposed tr = concat (map disposed_of tr)"

definition called :: "event list \<Rightarrow> Disposer list" where
  "called tr = concat (map called_of tr)"

definition live_validators :: "event list \<Rightarrow> nat list" where
  "live_validators tr = filter (\<lambda>v. v \<notin> set (disposed tr)) (created tr)"

text \<open>
  What holds of a field and its world between two runs of the effect: the field's
  \<open>dataValidator\<close> is the one live validator, and the factory's next number is new.
\<close>

definition field_inv :: "SimpleField \<Rightarrow> world \<Rightarrow> bool" where
  "field_inv this w =
     (\<exists>v. dataValidator this = Some v \<and> oldDataValidator this = Some v
        \<and> live_validators (trace w) = [v]
        \<and> (\<forall>u \<in> set (created (trace w)) \<union> set (disposed (trace w)). u < next_validator w)
        \<and> \<not> autorun_disposed w)"

section \<open>Example fields\<close>

definition age_data :: ComponentData where
  "age_data =
     \<lparr>model = \<lparr>valued = Some ''age'', valueType = Some ''number'',
                defaultProps = Some [''age'' \<mapsto> JNum 0]\<rparr>,
      store = \<lparr>store_key = ''age1'', props = Map.empty\<rparr>\<rparr>"

definition unnamed_data :: ComponentData where
  "unnamed_data =
     \<lparr>model = \<lparr>valued = Some [], valueType = Some ''number'', defaultProps = None\<rparr>,
      store = \<lparr>store_key = ''c1'', props = Map.empty\<rparr>\<rparr>"

definition no_calculation :: "ComponentStore \<Rightarrow> string \<Rightarrow> jsval" where
  "no_calculation = (\<lambda>componentStore k. JUndefined)"

definition no_initial_data :: "unit \<Rightarrow> jsval" where
  "no_initial_data = (\<lambda>u. JUndefined)"

definition example_field :: SimpleField where
  "example_field =
     \<lparr>oldDataValidator = Some 0, error = Some ''Required'', touched = False,
      fvalue = JNum 0, fvalued = ''age'', fvalueType = ''number'',
      dataValidator = Some 0,
      disposers = [AutorunDisposer, DataValidatorDisposer, ReactionDisposer],
      componentData = age_data, calculateValue = no_calculation,
      getInitialData = no_initial_data, deferFieldCalculation = False\<rparr>"

section \<open>Properties of the validator resolver\<close>

subsection \<open>Argument objects\<close>

lemma fold_update_map_of:
  "map_of (fold (\<lambda>(k, v) a. AList.update k v a) src tgt) = map_of tgt ++ map_of (rev src)"
proof (induction src arbitrary: tgt)
  case Nil
  show ?case by simp
next
  case (Cons kv src)
  obtain k v where kv: "kv = (k, v)" by (cases kv)
  have "map_of (fold (\<lambda>(k, v) a. AList.update k v a) (kv # src) tgt)
        = map_of (AList.update k v tgt) ++ map_of (rev src)"
    using Cons.IH [of "AList.update k v tgt"] by (simp add: kv)
  also have "\<dots> = map_of tgt ++ map_of (rev (kv # src))"
    by (simp add: kv update_conv' map_add_upd_left fun_eq_iff map_add_def split: option.splits)
  finally show ?case .
qed

lemma map_of_rev_distinct:
  "distinct (map fst xs) \<Longrightarrow> map_of (rev xs) = map_of xs"
  by (subst map_of_inject_set) (simp_all add: rev_map [symmetric])

lemma typeof_undefined: "(typeof v \<noteq> ''undefined'') = (v \<noteq> JUndefined)"
  by (cases v) simp_all

lemma typeof_string: "(typeof v = ''string'') = (\<exists>s. v = JStr s)"
  by (cases v) simp_all

lemma map_of_rev_defaults:
  "map_of (rev (map (\<lambda>p. (pkey p, pdefault p)) (filter (\<lambda>p. pdefault p \<noteq> JUndefined) ps))) k
   = declared_default (Some ps) k"
proof (induction ps rule: rev_induct)
  case Nil
  show ?case by (simp add: declared_default_def)
next
  case (snoc p ps)
  then show ?case
    by (auto simp: declared_default_def split: list.splits)
qed

lemma fold_param_update:
  "fold (\<lambda>param a. AList.update (pkey param) (pdefault param) a) qs tgt
   = fold (\<lambda>(k, v) a. AList.update k v a) (map (\<lambda>p. (pkey p, pdefault p)) qs) tgt"
  by (induction qs arbitrary: tgt) simp_all

lemma assign_defaults_map_of:
  "map_of (assign_defaults ps []) = declared_default ps"
proof (cases ps)
  case None
  then show ?thesis by (simp add: assign_defaults_def declared_default_def fun_eq_iff)
next
  case (Some ps')
  show ?thesis
    unfolding Some assign_defaults_def option.case typeof_undefined fold_param_update
    by (simp add: fold_update_map_of map_of_rev_defaults fun_eq_iff)
qed

lemma build_args_map_of:
  assumes "case explicit of None \<Rightarrow> True | Some a \<Rightarrow> distinct (map fst a)"
  shows "map_of (build_args ps explicit)
         = declared_default ps ++ (case explicit of None \<Rightarrow> Map.empty | Some a \<Rightarrow> map_of a)"
  using assms
  by (cases explicit)
     (simp_all add: build_args_def Object_assign_def fold_update_map_of
        assign_defaults_map_of map_of_rev_distinct)

subsection \<open>The loop\<close>

lemma current_form_data_eq: "current_form_data getFormData = call_getFormData getFormData"
  by (cases getFormData) (simp_all add: current_form_data_def call_getFormData_def)

lemma validate_loop_append:
  "validate_loop value sto gfd (xs @ ys) st
   = validate_loop value sto gfd ys (validate_loop value sto gfd xs st)"
  by (induction xs arbitrary: st) (simp_all add: Let_def)

lemma validate_loop_results:
  "validationResults (validate_loop value sto gfd vs st)
   = validationResults st @ concat (map (expected_failures value sto gfd) vs)"
proof (induction vs arbitrary: st)
  case Nil
  show ?case by simp
next
  case (Cons v vs)
  show ?case
    by (simp add: Cons.IH Let_def expected_failures_def current_form_data_def
          call_getFormData_def get_property_def typeof_string
        split: option.splits vresult.splits jsval.splits bool.splits)
qed

lemma validate_loop_invocations:
  "invocations (validate_loop value sto gfd vs st)
   = invocations st @ concat (map (expected_calls gfd) vs)"
proof (induction vs arbitrary: st)
  case Nil
  show ?case by simp
next
  case (Cons v vs)
  show ?case
    by (simp add: Cons.IH Let_def expected_calls_def current_form_data_def
          call_getFormData_def split: option.splits)
qed

lemma all_passing_no_failure:
  assumes "returns_true (validator v value sto
             (build_args (params v) (args (settings v))) (current_form_data gfd))"
  shows "expected_failures value sto gfd v = []"
  using assms by (auto simp: expected_failures_def returns_true_def Let_def)

lemma resolved_Some:
  "\<exists>st. resolved (Some vs) value sto gfd = Some st
     \<and> validationResults st = concat (map (expected_failures value sto gfd) vs)
     \<and> invocations st = concat (map (expected_calls gfd) vs)"
  by (simp add: resolved_def validate_loop_results validate_loop_invocations)

subsection \<open>The engine's sort\<close>

lemma mset_take_drop: "mset (take n ys) + mset (drop n ys) = mset ys"
  by (metis append_take_drop_id mset_append)

lemma mset_insert_at: "mset (take n run @ pivot # drop n run) = add_mset pivot (mset run)"
proof -
  have "mset (take n run @ pivot # drop n run)
        = add_mset pivot (mset (take n run) + mset (drop n run))"
    by simp
  then show ?thesis by (simp only: mset_take_drop)
qed

lemma mset_BinaryInsertionSort:
  "mset (BinaryInsertionSort comparefn run xs) = mset run + mset xs"
proof (induction xs arbitrary: run)
  case Nil
  show ?case by simp
next
  case (Cons pivot xs)
  show ?case
    by (simp only: BinaryInsertionSort.simps Let_def Cons.IH mset_insert_at) simp
qed

lemma mset_reverse_run: "mset (rev (take n ys) @ drop n ys) = mset ys"
proof -
  have "mset (rev (take n ys) @ drop n ys) = mset (take n ys) + mset (drop n ys)"
    by simp
  then show ?thesis by (simp only: mset_take_drop)
qed

lemma mset_CountAndMakeRun:
  "mset (snd (CountAndMakeRun comparefn a)) = mset a"
proof (cases a)
  case Nil
  then show ?thesis by simp
next
  case (Cons h t)
  show ?thesis
  proof (cases t)
    case Nil
    with Cons show ?thesis by simp
  next
    case (Cons l xs)
    show ?thesis
      unfolding \<open>a = h # t\<close> Cons CountAndMakeRun.simps Let_def snd_conv
      by (cases "comparefn l h < 0") (simp_all only: mset_reverse_run if_True if_False)
  qed
qed

lemma mset_ArrayTimSort: "mset (ArrayTimSort comparefn a) = mset a"
proof (cases "CountAndMakeRun comparefn a")
  case (Pair currentRunLength workArray)
  have w: "mset workArray = mset a"
    using mset_CountAndMakeRun [of comparefn a] Pair by simp
  show ?thesis
    by (simp add: ArrayTimSort_def Pair mset_BinaryInsertionSort mset_take_drop w)
qed

lemma InsertionSort_code_first:
  "map key (InsertionSort byPriority
      [plain_rule ''code'', plain_rule ''minLength'', plain_rule ''required''])
   = [''required'', ''code'', ''minLength'']"
  by (simp add: InsertionSort_def byPriority_def plain_rule_def)

subsection \<open>Resolution\<close>

lemma byPriority_ignores_first: "byPriority a b = byPriority a' b"
  by (simp add: byPriority_def)

lemma toValidator_builtin_absent:
  "falsy (type rule) \<Longrightarrow> internal validationRules (key rule) = None \<Longrightarrow>
   \<exists>msg. toValidator validationRules rule console = (Inl (TypeError msg), console)"
  by (simp add: toValidator_def)

lemma toValidator_custom_absent:
  "type rule = Some ''custom'' \<Longrightarrow>
   (case custom validationRules of None \<Rightarrow> None | Some c \<Rightarrow> c (key rule)) = None \<Longrightarrow>
   toValidator validationRules rule console
   = (Inr \<lparr>settings = rule, validator = noOpValidator, params = None\<rparr>,
      console @ [cannot_find_rule (key rule) ''custom''])"
  by (simp add: toValidator_def)

lemma map_toValidator_settings:
  "map_toValidator validationRules rules console = (Inr vs, console') \<Longrightarrow> map settings vs = rules"
proof (induction rules arbitrary: console vs console')
  case Nil
  then show ?case by simp
next
  case (Cons rule rules)
  then show ?case
    by (auto simp: toValidator_def split: prod.splits sum.splits if_splits option.splits)
qed

lemma parse_no_rules:
  "schema_rules schema = [] \<Longrightarrow> parse sortfn validationRules schema console = (Inr None, console)"
  by (simp add: parse_def schema_rules_def split: option.splits)

lemma parse_some_rules:
  assumes "schema_rules schema \<noteq> []"
      and "parse sortfn validationRules schema console = (Inr r, console')"
  shows "\<exists>vs. r = Some vs \<and> map settings vs = sortfn byPriority (schema_rules schema)"
  using assms
  by (auto simp: parse_def schema_rules_def Let_def
      split: option.splits prod.splits sum.splits if_splits dest: map_toValidator_settings)

subsection \<open>The claims\<close>

text \<open>
  Claim C1. For every list of validation rules with the keys \<open>required\<close>,
  \<open>minLength\<close> and \<open>code\<close> (one rule each), sorting with \<open>byPriority\<close> gives the
  pipeline order \<open>required, minLength, code\<close>, for every permutation of the input.

  This is what the comment above \<open>byPriority\<close> asks for, and the code does not do it:
  the comparator only looks at its second argument, so \<open>required\<close> compared with
  \<open>minLength\<close> is 0. On the input \<open>minLength, required, code\<close> V8's sort finds
  one ascending run and leaves the array as it is: \<open>minLength\<close> runs before
  \<open>required\<close>. (The defect is the comparator's, not the engine's: the insertion sort of
  older engines puts \<open>code\<close> before \<open>minLength\<close> on another permutation,
  \<open>InsertionSort_code_first\<close>.)
\<close>

theorem parse_order_minLength_first:
  "map key (ArrayTimSort byPriority
      [plain_rule ''minLength'', plain_rule ''required'', plain_rule ''code''])
   = [''minLength'', ''required'', ''code'']
   \<and> (case fst (parse ArrayTimSort example_rules
                  (example_schema [plain_rule ''minLength'', plain_rule ''required'',
                                   plain_rule ''code'']) []) of
        Inr (Some vs) \<Rightarrow> map (\<lambda>v. key (settings v)) vs = [''minLength'', ''required'', ''code'']
      | _ \<Rightarrow> False)"
  by (simp add: ArrayTimSort_def byPriority_def plain_rule_def parse_def example_schema_def
      toValidator_def example_rules_def)

text \<open>
  Claim C2. For every rule whose key is absent from the registry it is looked up in,
  resolution never throws: it warns, substitutes the no-op validator, and every other
  rule is still resolved and executed.

  The custom branch does so (\<open>toValidator_custom_absent\<close>). The built-in branch reads
  \<open>validatorFactory\<close> of the absent entry (\<open>toValidator_builtin_absent\<close>): with the
  rules \<open>required\<close> and the unknown \<open>nope\<close>, \<open>validatorsResolver\<close> throws a
  \<open>TypeError\<close>, writes no warning and produces no validation function at all.
\<close>

theorem validatorsResolver_absent_builtin_throws:
  "fst (validatorsResolver ArrayTimSort example_rules
          (example_schema [plain_rule ''required'', plain_rule ''nope'']) [])
   = Inl (TypeError (''Cannot read properties of undefined (reading ''
                       @ squote ''validatorFactory'' @ '')''))
   \<and> snd (validatorsResolver ArrayTimSort example_rules
          (example_schema [plain_rule ''required'', plain_rule ''nope'']) []) = []"
  by (simp add: validatorsResolver_def ArrayTimSort_def byPriority_def plain_rule_def parse_def
      example_schema_def toValidator_def example_rules_def)

text \<open>
  Claim C5. The function produced by the validator resolver resolves to \<open>undefined\<close>
  for every input when the schema declares no validation rules (schema absent,
  validations absent, or empty); otherwise it evaluates every rule, with no short-circuit
  on failure, and resolves to the complete ordered list of failures (the empty list when
  all rules pass, never \<open>undefined\<close>).

  With no rules the resolver always produces a function, the console untouched. With
  rules, whenever it produces a function, the pipeline \<open>vs\<close> has one validator for each
  rule of the sorted list, which holds every rule of the schema once when the engine's
  sort permutes its input; the validator of every rule that is due is called once, in
  that order, and the result is the list of every rule's failure, in that order: the
  empty list when every validator returns \<open>true\<close>.
\<close>

theorem validatorsResolver_outcome:
  "(schema_rules schema = [] \<longrightarrow>
      (\<exists>f. validatorsResolver sortfn validationRules schema console = (Inr f, console)
         \<and> (\<forall>value sto gfd. f value sto gfd = None)))
   \<and> (schema_rules schema \<noteq> [] \<longrightarrow>
      (\<forall>f console'.
         validatorsResolver sortfn validationRules schema console = (Inr f, console') \<longrightarrow>
         (\<exists>vs. fst (parse sortfn validationRules schema console) = Inr (Some vs)
            \<and> map settings vs = sortfn byPriority (schema_rules schema)
            \<and> (mset (sortfn byPriority (schema_rules schema)) = mset (schema_rules schema)
                 \<longrightarrow> mset (map settings vs) = mset (schema_rules schema))
            \<and> (\<forall>value sto gfd.
                  \<exists>st. f value sto gfd = Some st
                    \<and> validationResults st = concat (map (expected_failures value sto gfd) vs)
                    \<and> invocations st = concat (map (expected_calls gfd) vs)
                    \<and> ((\<forall>v \<in> set vs. returns_true
                            (validator v value sto (build_args (params v) (args (settings v)))
                               (current_form_data gfd)))
                         \<longrightarrow> validationResults st = [])))))"
proof (intro conjI impI allI)
  assume "schema_rules schema = []"
  then show "\<exists>f. validatorsResolver sortfn validationRules schema console = (Inr f, console)
         \<and> (\<forall>value sto gfd. f value sto gfd = None)"
    by (simp add: validatorsResolver_def parse_no_rules resolved_def)
next
  fix f console'
  assume ne: "schema_rules schema \<noteq> []"
     and f: "validatorsResolver sortfn validationRules schema console = (Inr f, console')"
  from f obtain r where p: "parse sortfn validationRules schema console = (Inr r, console')"
    and fr: "f = resolved r"
    by (auto simp: validatorsResolver_def split: prod.splits sum.splits)
  from parse_some_rules [OF ne p] obtain vs where
    vs: "r = Some vs" "map settings vs = sortfn byPriority (schema_rules schema)"
    by blast
  have run: "\<exists>st. f val sto gfd = Some st
               \<and> validationResults st = concat (map (expected_failures val sto gfd) vs)
               \<and> invocations st = concat (map (expected_calls gfd) vs)
               \<and> ((\<forall>v \<in> set vs. returns_true
                       (validator v val sto (build_args (params v) (args (settings v)))
                          (current_form_data gfd)))
                    \<longrightarrow> validationResults st = [])"
    for val sto gfd
  proof -
    from resolved_Some [of vs val sto gfd] obtain st where
      st: "resolved (Some vs) val sto gfd = Some st"
        "validationResults st = concat (map (expected_failures val sto gfd) vs)"
        "invocations st = concat (map (expected_calls gfd) vs)"
      by blast
    have "validationResults st = []"
      if pass: "\<forall>v \<in> set vs. returns_true
                  (validator v val sto (build_args (params v) (args (settings v)))
                     (current_form_data gfd))"
    proof -
      have "expected_failures val sto gfd v = []" if "v \<in> set vs" for v
        by (rule all_passing_no_failure) (use pass that in blast)
      then show ?thesis by (simp add: st(2))
    qed
    with st show ?thesis by (simp add: fr vs(1))
  qed
  show "\<exists>vs. fst (parse sortfn validationRules schema console) = Inr (Some vs)
            \<and> map settings vs = sortfn byPriority (schema_rules schema)
            \<and> (mset (sortfn byPriority (schema_rules schema)) = mset (schema_rules schema)
                 \<longrightarrow> mset (map settings vs) = mset (schema_rules schema))
            \<and> (\<forall>value sto gfd.
                  \<exists>st. f value sto gfd = Some st
                    \<and> validationResults st = concat (map (expected_failures value sto gfd) vs)
                    \<and> invocations st = concat (map (expected_calls gfd) vs)
                    \<and> ((\<forall>v \<in> set vs. returns_true
                            (validator v value sto (build_args (params v) (args (settings v)))
                               (current_form_data gfd)))
                         \<longrightarrow> validationResults st = []))"
  proof (intro exI [of _ vs] conjI allI)
    show "fst (parse sortfn validationRules schema console) = Inr (Some vs)"
      by (simp add: p vs(1))
    show "map settings vs = sortfn byPriority (schema_rules schema)"
      by (rule vs(2))
    show "mset (sortfn byPriority (schema_rules schema)) = mset (schema_rules schema)
          \<longrightarrow> mset (map settings vs) = mset (schema_rules schema)"
      by (simp only: vs(2) simp_thms)
    show "\<exists>st. f val sto gfd = Some st
            \<and> validationResults st = concat (map (expected_failures val sto gfd) vs)
            \<and> invocations st = concat (map (expected_calls gfd) vs)
            \<and> ((\<forall>v \<in> set vs. returns_true
                       (validator v val sto (build_args (params v) (args (settings v)))
                          (current_form_data gfd)))
                 \<longrightarrow> validationResults st = [])" for val sto gfd
      by (rule run)
  qed
qed

theorem validatorsResolver_outcome_witness:
  "schema_rules (None :: jsobject BoundValueSchema option) = []
   \<and> (case fst (validatorsResolver ArrayTimSort form_rules None []) of
        Inr f \<Rightarrow> f JUndefined () subscribing = None
      | Inl e \<Rightarrow> False)
   \<and> schema_rules (form_schema [when_subscribed ''required'', form_rule ''minLength'',
                                form_rule ''code'']) \<noteq> []
   \<and> mset (ArrayTimSort byPriority
             (schema_rules (form_schema [when_subscribed ''required'', form_rule ''minLength'',
                                         form_rule ''code''])))
     = mset (schema_rules (form_schema [when_subscribed ''required'', form_rule ''minLength'',
                                        form_rule ''code'']))
   \<and> (case fst (parse ArrayTimSort form_rules
                  (form_schema [when_subscribed ''required'', form_rule ''minLength'',
                                form_rule ''code'']) []) of
        Inr (Some vs) \<Rightarrow>
          list_all (\<lambda>v. returns_true (validator v (JStr ''abcd'') ()
                                  (build_args (params v) (args (settings v)))
                                  (current_form_data subscribing))) vs
      | _ \<Rightarrow> False)
   \<and> (case fst (validatorsResolver ArrayTimSort form_rules
                  (form_schema [when_subscribed ''required'', form_rule ''minLength'',
                                form_rule ''code'']) []) of
        Inr f \<Rightarrow>
          invoked_keys (f JUndefined () subscribing) = Some [''required'', ''minLength'', ''code'']
          \<and> result_keys (f JUndefined () subscribing) = Some [''required'', ''minLength'']
          \<and> result_messages (f JUndefined () subscribing) = Some [JStr ''Required'', JUndefined]
          \<and> invoked_keys (f (JStr ''ab'') () subscribing)
              = Some [''required'', ''minLength'', ''code'']
          \<and> result_messages (f (JStr ''ab'') () subscribing) = Some [JStr ''Too short'']
          \<and> invoked_keys (f (JStr ''abcd'') () subscribing)
              = Some [''required'', ''minLength'', ''code'']
          \<and> result_messages (f (JStr ''abcd'') () subscribing) = Some []
      | Inl e \<Rightarrow> False)"
proof -
  let ?rules = "[when_subscribed ''required'', form_rule ''minLength'', form_rule ''code'']"
  have perm: "mset (ArrayTimSort byPriority (schema_rules (form_schema ?rules)))
              = mset (schema_rules (form_schema ?rules))"
    by (rule mset_ArrayTimSort)
  have run: "case fst (validatorsResolver ArrayTimSort form_rules (form_schema ?rules) []) of
        Inr f \<Rightarrow>
          invoked_keys (f JUndefined () subscribing) = Some [''required'', ''minLength'', ''code'']
          \<and> result_keys (f JUndefined () subscribing) = Some [''required'', ''minLength'']
          \<and> result_messages (f JUndefined () subscribing) = Some [JStr ''Required'', JUndefined]
          \<and> invoked_keys (f (JStr ''ab'') () subscribing)
              = Some [''required'', ''minLength'', ''code'']
          \<and> result_messages (f (JStr ''ab'') () subscribing) = Some [JStr ''Too short'']
          \<and> invoked_keys (f (JStr ''abcd'') () subscribing)
              = Some [''required'', ''minLength'', ''code'']
          \<and> result_messages (f (JStr ''abcd'') () subscribing) = Some []
      | Inl e \<Rightarrow> False"
    by (simp add: form_schema_def validatorsResolver_def parse_def
        ArrayTimSort_def byPriority_def form_rule_def when_subscribed_def toValidator_def
        form_rules_def resolved_def result_messages_def result_keys_def invoked_keys_def
        needValidate_def call_getFormData_def build_args_def subscribed_def subscribing_def
        assign_defaults_def Object_assign_def form_required_def form_minLength_def
        noOpValidator_def get_property_def Let_def)
  have pass: "case fst (parse ArrayTimSort form_rules (form_schema ?rules) []) of
        Inr (Some vs) \<Rightarrow>
          list_all (\<lambda>v. returns_true (validator v (JStr ''abcd'') ()
                                  (build_args (params v) (args (settings v)))
                                  (current_form_data subscribing))) vs
      | _ \<Rightarrow> False"
    by (simp add: form_schema_def parse_def ArrayTimSort_def byPriority_def form_rule_def
        when_subscribed_def toValidator_def form_rules_def returns_true_def
        current_form_data_def build_args_def subscribing_def assign_defaults_def
        Object_assign_def form_required_def form_minLength_def noOpValidator_def)
  have none: "case fst (validatorsResolver ArrayTimSort form_rules None []) of
        Inr f \<Rightarrow> f JUndefined () subscribing = None
      | Inl e \<Rightarrow> False"
    by (simp add: validatorsResolver_def parse_def resolved_def)
  have r0: "schema_rules (None :: jsobject BoundValueSchema option) = []"
    and r1: "schema_rules (form_schema ?rules) \<noteq> []"
    by (simp_all add: schema_rules_def form_schema_def)
  from validatorsResolver_outcome [of None ArrayTimSort form_rules "[]"]
    validatorsResolver_outcome [of "form_schema ?rules" ArrayTimSort form_rules "[]"]
    r0 r1 perm run pass none
  show ?thesis by blast
qed

text \<open>
  Claim C6. For every resolved rule, the validator is invoked with an argument map built
  by first taking each declared parameter's default (only parameters whose default is
  defined) and then overlaying the rule's explicit args (explicit overrides default);
  when the awaited result is not exactly \<open>true\<close>, a \<open>ValidationResult\<close> is recorded
  whose message is the result itself if it is a string and otherwise the args'
  \<open>message\<close> entry.

  Stated for the step of the loop on one rule that is due, from any state of the loop;
  the rule's explicit \<open>args\<close> is an object, so its keys are distinct.
\<close>

theorem validator_call_args_and_message:
  assumes "needValidate (validateWhen (settings v)) (call_getFormData gfd)"
      and "\<forall>a. args (settings v) = Some a \<longrightarrow> distinct (map fst a)"
  shows "\<exists>a r.
      (\<forall>k. map_of a k =
            (case (case args (settings v) of None \<Rightarrow> None | Some e \<Rightarrow> map_of e k) of
               Some x \<Rightarrow> Some x
             | None \<Rightarrow> declared_default (params v) k))
    \<and> r = awaited (validator v value sto a (call_getFormData gfd))
    \<and> invocations (validate_loop value sto gfd [v] st) = invocations st @ [(settings v, a)]
    \<and> validationResults (validate_loop value sto gfd [v] st)
        = validationResults st @
          (if r = JBool True then []
           else [\<lparr>rsettings = settings v,
                  message = (case r of JStr s \<Rightarrow> JStr s | _ \<Rightarrow> get_property a ''message'')\<rparr>])"
proof -
  let ?a = "build_args (params v) (args (settings v))"
  have wf: "case args (settings v) of None \<Rightarrow> True | Some a \<Rightarrow> distinct (map fst a)"
    using assms(2) by (simp split: option.splits)
  have m: "\<forall>k. map_of ?a k =
            (case (case args (settings v) of None \<Rightarrow> None | Some e \<Rightarrow> map_of e k) of
               Some x \<Rightarrow> Some x
             | None \<Rightarrow> declared_default (params v) k)"
    by (simp add: build_args_map_of [OF wf] map_add_def split: option.splits)
  have i: "invocations (validate_loop value sto gfd [v] st) = invocations st @ [(settings v, ?a)]"
    using assms(1)
    by (subst validate_loop_invocations) (simp add: expected_calls_def current_form_data_eq)
  have r: "validationResults (validate_loop value sto gfd [v] st)
        = validationResults st @
          (if awaited (validator v value sto ?a (call_getFormData gfd)) = JBool True then []
           else [\<lparr>rsettings = settings v,
                  message = (case awaited (validator v value sto ?a (call_getFormData gfd)) of
                               JStr s \<Rightarrow> JStr s | _ \<Rightarrow> get_property ?a ''message'')\<rparr>])"
    using assms(1)
    by (subst validate_loop_results)
       (simp add: expected_failures_def Let_def current_form_data_eq get_property_def
          split: vresult.splits jsval.splits bool.splits)
  from m i r show ?thesis by blast
qed

theorem validator_call_args_and_message_witness:
  "needValidate (validateWhen (settings minLength_5)) (call_getFormData None)
   \<and> distinct (map fst [(''limit'', JNum 5)])
   \<and> invocations (validate_loop (JStr ''abc'') () None [minLength_5] initial_run_state)
       = [(settings minLength_5, [(''limit'', JNum 5)])]
   \<and> map message (validationResults
         (validate_loop (JStr ''abc'') () None [minLength_5] initial_run_state))
       = [JStr ''Too short'']"
  using validator_call_args_and_message
    [of minLength_5 None "JStr ''abc''" "()" initial_run_state]
  by (simp add: minLength_5_def initial_run_state_def needValidate_def call_getFormData_def
      build_args_def assign_defaults_def Object_assign_def minLength_validator_def
      get_property_def Let_def)

text \<open>
  Claim C7. For every rule whose \<open>validateWhen\<close> predicate evaluates to false against
  the current form data, the produced function skips the rule entirely: its validator is
  not invoked and it contributes no \<open>ValidationResult\<close>, even if the validator would
  fail.

  The rule has a predicate, the caller passed a getter, and the predicate is false on
  the data the getter returns. Then, wherever the rule stands in the pipeline, the run
  ends in the state it ends in without the rule, and the calls and the results it adds
  are those of the other rules: the rule's validator, whatever it would return, is not
  called and nothing is recorded for the rule.
\<close>

theorem validateWhen_false_skips_rule:
  assumes "validateWhen (settings v) = Some predicate"
      and "getFormData = Some g"
      and "\<not> predicate (Some (g ()))"
  shows "validate_loop value sto getFormData (pre @ v # post) st
         = validate_loop value sto getFormData (pre @ post) st
       \<and> invocations (validate_loop value sto getFormData (pre @ v # post) st)
         = invocations st @ concat (map (expected_calls getFormData) (pre @ post))
       \<and> validationResults (validate_loop value sto getFormData (pre @ v # post) st)
         = validationResults st
           @ concat (map (expected_failures value sto getFormData) (pre @ post))
       \<and> resolved (Some (pre @ v # post)) value sto getFormData
         = resolved (Some (pre @ post)) value sto getFormData"
proof -
  have skip: "\<not> needValidate (validateWhen (settings v)) (call_getFormData getFormData)"
    using assms by (simp add: needValidate_def call_getFormData_def)
  have same: "validate_loop value sto getFormData (pre @ v # post) st'
              = validate_loop value sto getFormData (pre @ post) st'" for st'
    using skip by (simp add: validate_loop_append)
  show ?thesis
    by (simp add: resolved_def same validate_loop_invocations validate_loop_results)
qed

theorem validateWhen_false_skips_rule_witness:
  "validateWhen (settings required_when_subscribed) = Some subscribed
   \<and> not_subscribing = Some (\<lambda>u. [(''subscribe'', JBool False)])
   \<and> \<not> subscribed (Some [(''subscribe'', JBool False)])
   \<and> validator required_when_subscribed JUndefined ()
        (build_args (params required_when_subscribed) (args (settings required_when_subscribed)))
        (Some [(''subscribe'', JBool False)])
      = Plain (JBool False)
   \<and> invoked_keys (resolved (Some [required_when_subscribed, minLength_3])
                     JUndefined () not_subscribing) = Some [''minLength'']
   \<and> result_keys (resolved (Some [required_when_subscribed, minLength_3])
                    JUndefined () not_subscribing) = Some [''minLength'']
   \<and> invoked_keys (resolved (Some [required_when_subscribed, minLength_3])
                     JUndefined () subscribing) = Some [''required'', ''minLength'']
   \<and> result_keys (resolved (Some [required_when_subscribed, minLength_3])
                    JUndefined () subscribing) = Some [''required'', ''minLength'']
   \<and> (case fst (validatorsResolver ArrayTimSort form_rules
                  (form_schema [when_subscribed ''required'', form_rule ''minLength'']) []) of
        Inr f \<Rightarrow>
          invoked_keys (f JUndefined () not_subscribing) = Some [''minLength'']
          \<and> result_messages (f JUndefined () not_subscribing) = Some [JUndefined]
          \<and> result_messages (f JUndefined () subscribing) = Some [JStr ''Required'', JUndefined]
      | Inl e \<Rightarrow> False)"
proof -
  have h1: "validateWhen (settings required_when_subscribed) = Some subscribed"
    by (simp add: required_when_subscribed_def when_subscribed_def)
  have h2: "not_subscribing = Some (\<lambda>u. [(''subscribe'', JBool False)])"
    by (simp add: not_subscribing_def)
  have h3: "\<not> subscribed (Some ((\<lambda>u. [(''subscribe'', JBool False)]) ()))"
    by (simp add: subscribed_def)
  have rest: "validator required_when_subscribed JUndefined ()
        (build_args (params required_when_subscribed) (args (settings required_when_subscribed)))
        (Some [(''subscribe'', JBool False)])
      = Plain (JBool False)
   \<and> invoked_keys (resolved (Some [required_when_subscribed, minLength_3])
                     JUndefined () not_subscribing) = Some [''minLength'']
   \<and> result_keys (resolved (Some [required_when_subscribed, minLength_3])
                    JUndefined () not_subscribing) = Some [''minLength'']
   \<and> invoked_keys (resolved (Some [required_when_subscribed, minLength_3])
                     JUndefined () subscribing) = Some [''required'', ''minLength'']
   \<and> result_keys (resolved (Some [required_when_subscribed, minLength_3])
                    JUndefined () subscribing) = Some [''required'', ''minLength'']
   \<and> (case fst (validatorsResolver ArrayTimSort form_rules
                  (form_schema [when_subscribed ''required'', form_rule ''minLength'']) []) of
        Inr f \<Rightarrow>
          invoked_keys (f JUndefined () not_subscribing) = Some [''minLength'']
          \<and> result_messages (f JUndefined () not_subscribing) = Some [JUndefined]
          \<and> result_messages (f JUndefined () subscribing) = Some [JStr ''Required'', JUndefined]
      | Inl e \<Rightarrow> False)"
    by (simp add: form_schema_def validatorsResolver_def parse_def
        ArrayTimSort_def byPriority_def form_rule_def when_subscribed_def toValidator_def
        form_rules_def resolved_def result_messages_def result_keys_def invoked_keys_def
        needValidate_def call_getFormData_def build_args_def subscribed_def subscribing_def
        not_subscribing_def required_when_subscribed_def minLength_3_def
        assign_defaults_def Object_assign_def form_required_def form_minLength_def
        get_property_def Let_def)
  from validateWhen_false_skips_rule
         [OF h1 h2 h3, of JUndefined "()" "[]" "[minLength_3]"
            "\<lparr>validationResults = [], invocations = []\<rparr>"]
    h1 h2 h3 rest
  show ?thesis by (simp add: subscribed_def)
qed

text \<open>
  Claim C10. For every rule whose type is defined and different from \<open>custom\<close>,
  resolution consults neither registry: it always warns and substitutes the no-op
  validator, so such a rule never contributes a \<open>ValidationResult\<close>.

  The first test of \<open>toValidator\<close> is \<open>!rule.type\<close>, which the empty string passes
  too: a rule of type \<open>''\<close> is looked up in the built-in registry. With the key
  \<open>required\<close> no warning is written, and on the value \<open>undefined\<close> the rule
  contributes a failure.
\<close>

theorem empty_type_rule_counterexample:
  "type empty_type_rule \<noteq> None \<and> type empty_type_rule \<noteq> Some ''custom''
   \<and> snd (validatorsResolver ArrayTimSort example_rules (example_schema [empty_type_rule]) []) = []
   \<and> (case fst (validatorsResolver ArrayTimSort example_rules
                  (example_schema [empty_type_rule]) []) of
        Inr f \<Rightarrow> result_messages (f JUndefined () None) = Some [JStr ''Required'']
      | Inl e \<Rightarrow> False)"
  by (simp add: empty_type_rule_def example_schema_def validatorsResolver_def parse_def
      ArrayTimSort_def toValidator_def example_rules_def
      resolved_def result_messages_def needValidate_def call_getFormData_def build_args_def
      assign_defaults_def Object_assign_def required_validator_def get_property_def)

text \<open>
  Claim C10, amended. For every rule whose type is a non-empty string different from
  \<open>custom\<close>, resolution consults neither registry: it writes the warning and
  substitutes the no-op validator, and such a rule contributes no \<open>ValidationResult\<close>.
\<close>

theorem toValidator_other_type_noop:
  assumes "type rule = Some t" and "t \<noteq> []" and "t \<noteq> ''custom''"
  shows "toValidator validationRules rule console
         = (Inr \<lparr>settings = rule, validator = noOpValidator, params = None\<rparr>,
            console @ [cannot_find_rule (key rule) t])
       \<and> validationResults
           (validate_loop value sto gfd
              [\<lparr>settings = rule, validator = noOpValidator, params = None\<rparr>] st)
         = validationResults st"
  using assms by (simp add: toValidator_def noOpValidator_def Let_def)

theorem toValidator_other_type_noop_witness:
  "type other_type_rule = Some ''internal'' \<and> ''internal'' \<noteq> [] \<and> ''internal'' \<noteq> ''custom''
   \<and> snd (toValidator example_rules other_type_rule [])
       = [cannot_find_rule ''required'' ''internal'']
   \<and> (case fst (validatorsResolver ArrayTimSort example_rules
                  (example_schema [other_type_rule]) []) of
        Inr f \<Rightarrow> result_messages (f JUndefined () None) = Some []
      | Inl e \<Rightarrow> False)"
  using toValidator_other_type_noop
    [of other_type_rule "''internal''" example_rules "[]" JUndefined "()" None initial_run_state]
  by (simp add: other_type_rule_def example_schema_def validatorsResolver_def parse_def
      ArrayTimSort_def toValidator_def noOpValidator_def
      resolved_def result_messages_def needValidate_def call_getFormData_def build_args_def
      assign_defaults_def Object_assign_def)

section \<open>Properties of the reactive field\<close>

subsection \<open>Traces and the effect\<close>

lemma created_append: "created (xs @ ys) = created xs @ created ys"
  by (simp add: created_def)

lemma disposed_append: "disposed (xs @ ys) = disposed xs @ disposed ys"
  by (simp add: disposed_def)

lemma called_append: "called (xs @ ys) = called xs @ called ys"
  by (simp add: called_def)

lemma run_autorun_first:
  assumes "oldDataValidator this = None" and "\<not> autorun_disposed w"
  shows "run_autorun this w
         = (this\<lparr>dataValidator := Some (next_validator w),
                 oldDataValidator := Some (next_validator w)\<rparr>,
            w\<lparr>trace := trace w @ [ValidatorCreated (next_validator w),
                                   ValidatorAssigned (next_validator w)],
              next_validator := Suc (next_validator w)\<rparr>)"
  using assms
  by (simp add: run_autorun_def setValidator_def createDataValidator_def untracked_def
      emit_def Let_def)

lemma run_autorun_next:
  assumes "oldDataValidator this = Some old" and "\<not> autorun_disposed w"
  shows "run_autorun this w
         = (this\<lparr>dataValidator := Some (next_validator w),
                 oldDataValidator := Some (next_validator w)\<rparr>,
            w\<lparr>trace := trace w @ [ValidatorCreated (next_validator w),
                                   ValidatorAssigned (next_validator w),
                                   ValidatorDisposed old False (Some (next_validator w))],
              next_validator := Suc (next_validator w)\<rparr>)"
  using assms
  by (simp add: run_autorun_def setValidator_def createDataValidator_def untracked_def
      emit_def Let_def DataValidator_dispose_def)

lemma field_inv_run_autorun:
  assumes "field_inv this w" and "run_autorun this w = (this', w')"
  shows "field_inv this' w'"
proof -
  from assms(1) obtain v where v: "dataValidator this = Some v" "oldDataValidator this = Some v"
    "live_validators (trace w) = [v]"
    "\<forall>u \<in> set (created (trace w)) \<union> set (disposed (trace w)). u < next_validator w"
    "\<not> autorun_disposed w"
    by (auto simp: field_inv_def)
  let ?n = "next_validator w"
  have fresh: "?n \<notin> set (created (trace w))" "?n \<notin> set (disposed (trace w))"
    using v(4) by auto
  have vc: "v \<in> set (created (trace w))"
    using v(3) by (metis filter_is_subset list.set_intros(1) live_validators_def subsetD)
  have r: "this' = this\<lparr>dataValidator := Some ?n, oldDataValidator := Some ?n\<rparr>"
    "w' = w\<lparr>trace := trace w @ [ValidatorCreated ?n, ValidatorAssigned ?n,
                                   ValidatorDisposed v False (Some ?n)],
             next_validator := Suc ?n\<rparr>"
    using run_autorun_next [OF v(2) v(5)] assms(2) by simp_all
  have "filter (\<lambda>u. u \<noteq> v \<and> u \<notin> set (disposed (trace w))) (created (trace w)) = []"
  proof -
    have "filter (\<lambda>u. u \<noteq> v) (filter (\<lambda>u. u \<notin> set (disposed (trace w))) (created (trace w))) = []"
      using v(3) by (simp add: live_validators_def)
    then show ?thesis by (simp add: conj_commute)
  qed
  moreover have nv: "?n \<noteq> v"
    using vc fresh by auto
  moreover have c': "created (trace w') = created (trace w) @ [?n]"
    by (simp add: r created_def)
  moreover have d': "disposed (trace w') = disposed (trace w) @ [v]"
    by (simp add: r disposed_def)
  ultimately have live: "live_validators (trace w') = [?n]"
    using fresh by (simp add: live_validators_def conj_commute)
  have bound: "\<forall>u \<in> set (created (trace w')) \<union> set (disposed (trace w')). u < next_validator w'"
    unfolding c' d' using v(4) vc by (fastforce simp: r(2) less_Suc_eq)
  show ?thesis
    using live bound v(5) by (simp add: field_inv_def r)
qed

lemma fire_times_field_inv:
  "field_inv (fst fw) (snd fw) \<Longrightarrow> field_inv (fst (fire_times n fw)) (snd (fire_times n fw))"
proof (induction n arbitrary: fw)
  case 0
  then show ?case by simp
next
  case (Suc n)
  have "field_inv (fst (run_autorun (fst fw) (snd fw))) (snd (run_autorun (fst fw) (snd fw)))"
    using field_inv_run_autorun [OF Suc.prems, of "fst (run_autorun (fst fw) (snd fw))"
        "snd (run_autorun (fst fw) (snd fw))"]
    by simp
  from Suc.IH [OF this] show ?case by simp
qed

lemma run_autorun_keeps:
  "disposers (fst (run_autorun this w)) = disposers this
   \<and> (dataValidator this \<noteq> None \<longrightarrow> dataValidator (fst (run_autorun this w)) \<noteq> None)"
  by (simp add: run_autorun_def setValidator_def createDataValidator_def untracked_def
      Let_def split: prod.splits)

lemma fire_times_keeps:
  "disposers (fst (fire_times n fw)) = disposers (fst fw)
   \<and> (dataValidator (fst fw) \<noteq> None \<longrightarrow> dataValidator (fst (fire_times n fw)) \<noteq> None)"
proof (induction n arbitrary: fw)
  case 0
  show ?case by simp
next
  case (Suc n)
  show ?case
    using Suc.IH [of "run_autorun (fst fw) (snd fw)"] run_autorun_keeps [of "fst fw" "snd fw"]
    by simp
qed

subsection \<open>Construction and disposal\<close>

lemma SimpleField_new_throws:
  "falsy (valued (model cd)) \<or> falsy (valueType (model cd)) \<Longrightarrow>
   \<exists>e. SimpleField_new cd calc gid defer w = (Inl e, w)"
  by (auto simp: SimpleField_new_def)

lemma SimpleField_new_succeeds:
  assumes "\<not> falsy (valued (model cd))" and "\<not> falsy (valueType (model cd))"
  shows "\<exists>this seed.
           SimpleField_new cd calc gid defer w
           = (Inr this,
              w\<lparr>trace := trace w @ [MakeAutoObservable, ValueSeeded seed, AutorunCreated,
                                     ValidatorCreated (next_validator w),
                                     ValidatorAssigned (next_validator w), ReactionCreated],
                next_validator := Suc (next_validator w),
                autorun_disposed := False, reaction_disposed := False\<rparr>)
         \<and> fvalue this = seed
         \<and> dataValidator this = Some (next_validator w)
         \<and> oldDataValidator this = Some (next_validator w)
         \<and> disposers this = [AutorunDisposer, DataValidatorDisposer, ReactionDisposer]
         \<and> fvalued this = string_of (valued (model cd))
         \<and> fvalueType this = string_of (valueType (model cd))
         \<and> error this = None"
  using assms
  by (simp add: SimpleField_new_def Let_def run_autorun_first emit_def)

lemma SimpleField_new_Inr:
  assumes "SimpleField_new cd calc gid defer w = (Inr this, w')"
  shows "\<not> falsy (valued (model cd)) \<and> \<not> falsy (valueType (model cd))"
  using assms by (auto simp: SimpleField_new_def split: if_splits)

lemma SimpleField_new_field_inv:
  assumes "SimpleField_new cd calc gid defer new_world = (Inr this, w)"
  shows "field_inv this w"
proof -
  from SimpleField_new_Inr [OF assms]
  have ok: "\<not> falsy (valued (model cd))" "\<not> falsy (valueType (model cd))" by simp_all
  from SimpleField_new_succeeds [OF ok, of calc gid "defer" new_world] assms
  show ?thesis
    by (auto simp: field_inv_def new_world_def live_validators_def created_def disposed_def)
qed

lemma dispose_registered:
  assumes "disposers this = [AutorunDisposer, DataValidatorDisposer, ReactionDisposer]"
      and "dataValidator this = Some v"
  shows "dispose this w
         = w\<lparr>trace := trace w
                 @ DisposerCalled AutorunDisposer # (if autorun_disposed w then [] else [AutorunStopped])
                 @ [DisposerCalled DataValidatorDisposer,
                    ValidatorDisposed v (tracking w) (Some v),
                    DisposerCalled ReactionDisposer]
                 @ (if reaction_disposed w then [] else [ReactionStopped]),
              autorun_disposed := True, reaction_disposed := True\<rparr>"
  using assms
  by (simp add: dispose_def emit_def DataValidator_dispose_def Let_def)

subsection \<open>The claims\<close>

text \<open>
  Claim C3. Calling \<open>dispose()\<close> on a field runs every registered disposer exactly
  once, and calling \<open>dispose()\<close> a second time neither throws nor runs the disposers'
  effects (validator teardown, reactive-subscription teardown) a second time.

  \<open>dispose\<close> is a bare \<open>forEach\<close> over the disposers, and the field keeps no
  disposed flag: the second call runs \<open>this.dataValidator?.dispose()\<close> again, so the
  \<open>dispose()\<close> of Data Validator 0 has been called twice.
\<close>

theorem dispose_twice_counterexample:
  "(case SimpleField_new age_data no_calculation no_initial_data False new_world of
      (Inr this, w) \<Rightarrow>
        disposed (trace (dispose this w)) = [0]
        \<and> disposed (trace (dispose this (dispose this w))) = [0, 0]
    | (Inl e, w) \<Rightarrow> False)"
proof -
  have ok: "\<not> falsy (valued (model age_data))" "\<not> falsy (valueType (model age_data))"
    by (simp_all add: age_data_def)
  from SimpleField_new_succeeds [OF ok, of no_calculation no_initial_data False new_world]
  obtain this seed where
    c: "SimpleField_new age_data no_calculation no_initial_data False new_world
        = (Inr this,
           new_world\<lparr>trace := trace new_world @ [MakeAutoObservable, ValueSeeded seed, AutorunCreated,
                                     ValidatorCreated (next_validator new_world),
                                     ValidatorAssigned (next_validator new_world), ReactionCreated],
                next_validator := Suc (next_validator new_world),
                autorun_disposed := False, reaction_disposed := False\<rparr>)"
    and d: "disposers this = [AutorunDisposer, DataValidatorDisposer, ReactionDisposer]"
      "dataValidator this = Some (next_validator new_world)"
    by blast
  show ?thesis
    unfolding c by (simp add: dispose_registered [OF d] new_world_def disposed_def)
qed

text \<open>
  Claim C3, amended. Every call of \<open>dispose()\<close> runs every registered disposer exactly
  once, in the order of registration, and the field's own code does not throw. A second
  call runs them again: the disposers of the two reactions stop their reaction on the
  first call only, and the \<open>dispose()\<close> of the current Data Validator is called once
  more at each call.

  Stated for a constructed field after any number of runs of the effect, and for the call
  of \<open>dispose\<close> in any world \<open>w\<close>, a world that an earlier \<open>dispose\<close> has left
  included.
\<close>

theorem dispose_runs_disposers_once_per_call:
  assumes "SimpleField_new cd calc gid defer w00 = (Inr this0, w0)"
      and "fire_times n (this0, w0) = (this, w1)"
  shows "\<exists>v. dataValidator this = Some v
           \<and> (\<forall>w. \<exists>evs. trace (dispose this w) = trace w @ evs
                  \<and> called evs = [AutorunDisposer, DataValidatorDisposer, ReactionDisposer]
                  \<and> disposed evs = [v]
                  \<and> (AutorunStopped \<in> set evs) = (\<not> autorun_disposed w)
                  \<and> (ReactionStopped \<in> set evs) = (\<not> reaction_disposed w)
                  \<and> autorun_disposed (dispose this w) \<and> reaction_disposed (dispose this w))"
proof -
  from SimpleField_new_Inr [OF assms(1)]
  have ok: "\<not> falsy (valued (model cd))" "\<not> falsy (valueType (model cd))" by simp_all
  from SimpleField_new_succeeds [OF ok, of calc gid "defer" w00] assms(1)
  have "disposers this0 = [AutorunDisposer, DataValidatorDisposer, ReactionDisposer]"
    "dataValidator this0 \<noteq> None"
    by auto
  with fire_times_keeps [of n "(this0, w0)"] assms(2)
  have d: "disposers this = [AutorunDisposer, DataValidatorDisposer, ReactionDisposer]"
    and "dataValidator this \<noteq> None"
    by simp_all
  then obtain v where v: "dataValidator this = Some v" by blast
  have "\<exists>evs. trace (dispose this w) = trace w @ evs
          \<and> called evs = [AutorunDisposer, DataValidatorDisposer, ReactionDisposer]
          \<and> disposed evs = [v]
          \<and> (AutorunStopped \<in> set evs) = (\<not> autorun_disposed w)
          \<and> (ReactionStopped \<in> set evs) = (\<not> reaction_disposed w)
          \<and> autorun_disposed (dispose this w) \<and> reaction_disposed (dispose this w)" for w
    by (simp add: dispose_registered [OF d v] called_def disposed_def)
  with v show ?thesis by blast
qed

theorem dispose_runs_disposers_once_per_call_witness:
  "(case SimpleField_new age_data no_calculation no_initial_data False new_world of
      (Inr this0, w0) \<Rightarrow>
        (case fire_times 0 (this0, w0) of
           (this, w) \<Rightarrow>
             dataValidator this = Some 0
             \<and> drop (length (trace w)) (trace (dispose this w))
                 = [DisposerCalled AutorunDisposer, AutorunStopped,
                    DisposerCalled DataValidatorDisposer, ValidatorDisposed 0 False (Some 0),
                    DisposerCalled ReactionDisposer, ReactionStopped]
             \<and> drop (length (trace (dispose this w))) (trace (dispose this (dispose this w)))
                 = [DisposerCalled AutorunDisposer,
                    DisposerCalled DataValidatorDisposer, ValidatorDisposed 0 False (Some 0),
                    DisposerCalled ReactionDisposer])
    | (Inl e, w0) \<Rightarrow> False)"
proof -
  have ok: "\<not> falsy (valued (model age_data))" "\<not> falsy (valueType (model age_data))"
    by (simp_all add: age_data_def)
  from SimpleField_new_succeeds [OF ok, of no_calculation no_initial_data False new_world]
  obtain this seed where
    c: "SimpleField_new age_data no_calculation no_initial_data False new_world
        = (Inr this,
           new_world\<lparr>trace := trace new_world @ [MakeAutoObservable, ValueSeeded seed, AutorunCreated,
                                     ValidatorCreated (next_validator new_world),
                                     ValidatorAssigned (next_validator new_world), ReactionCreated],
                next_validator := Suc (next_validator new_world),
                autorun_disposed := False, reaction_disposed := False\<rparr>)"
    and d: "disposers this = [AutorunDisposer, DataValidatorDisposer, ReactionDisposer]"
      "dataValidator this = Some (next_validator new_world)"
    by blast
  have f: "fire_times 0 (this, snd (SimpleField_new age_data no_calculation no_initial_data False new_world))
           = (this, snd (SimpleField_new age_data no_calculation no_initial_data False new_world))"
    by simp
  have c': "SimpleField_new age_data no_calculation no_initial_data False new_world
            = (Inr this, snd (SimpleField_new age_data no_calculation no_initial_data False new_world))"
    by (simp add: c)
  from dispose_runs_disposers_once_per_call [OF c' f]
  show ?thesis
    unfolding c by (simp add: d dispose_registered [OF d] new_world_def)
qed

text \<open>
  Claim C4. Whenever the validator-recreating effect fires, the new Data Validator is
  assigned to the field's \<open>dataValidator\<close> before the previous one's \<open>dispose()\<close> is
  called, and the previous one's disposal runs in an untracked region; at every observable
  point exactly one Data Validator is current for the field.

  After the construction and any number of runs of the effect, the field's
  \<open>dataValidator\<close> is the one live validator \<open>v\<close>. The next run creates a validator,
  assigns it, and only then calls \<open>v.dispose()\<close>: untracked (the flag \<open>False\<close> of the
  event), and at a moment when \<open>dataValidator\<close> already holds the new validator; after
  the run the new validator is the one live validator.
\<close>

theorem setValidator_installs_before_disposing:
  assumes "SimpleField_new cd calc gid defer new_world = (Inr this0, w0)"
      and "fire_times n (this0, w0) = (this, w)"
  shows "\<exists>v. dataValidator this = Some v \<and> live_validators (trace w) = [v]
           \<and> (\<exists>this' w'. run_autorun this w = (this', w')
                 \<and> trace w' = trace w @ [ValidatorCreated (next_validator w),
                                          ValidatorAssigned (next_validator w),
                                          ValidatorDisposed v False (Some (next_validator w))]
                 \<and> v \<noteq> next_validator w
                 \<and> dataValidator this' = Some (next_validator w)
                 \<and> live_validators (trace w') = [next_validator w])"
proof -
  have "field_inv (fst (fire_times n (this0, w0))) (snd (fire_times n (this0, w0)))"
    using fire_times_field_inv [of "(this0, w0)" n] SimpleField_new_field_inv [OF assms(1)]
    by simp
  then have inv: "field_inv this w" by (simp add: assms(2))
  then obtain v where v: "dataValidator this = Some v" "oldDataValidator this = Some v"
    "live_validators (trace w) = [v]" "\<not> autorun_disposed w"
    "\<forall>u \<in> set (created (trace w)) \<union> set (disposed (trace w)). u < next_validator w"
    by (auto simp: field_inv_def)
  obtain this' w' where r: "run_autorun this w = (this', w')" by (cases "run_autorun this w")
  have inv': "field_inv this' w'" by (rule field_inv_run_autorun [OF inv r])
  have vc: "v \<in> set (created (trace w))"
    using v(3) by (metis filter_is_subset list.set_intros(1) live_validators_def subsetD)
  have nv: "v \<noteq> next_validator w" using v(5) vc by auto
  have e: "this' = this\<lparr>dataValidator := Some (next_validator w),
                         oldDataValidator := Some (next_validator w)\<rparr>"
    "trace w' = trace w @ [ValidatorCreated (next_validator w),
                           ValidatorAssigned (next_validator w),
                           ValidatorDisposed v False (Some (next_validator w))]"
    using run_autorun_next [OF v(2) v(4)] r by simp_all
  have "live_validators (trace w') = [next_validator w]"
    using inv' e(1) by (auto simp: field_inv_def)
  with v(1) v(3) r e nv show ?thesis by simp
qed

theorem setValidator_installs_before_disposing_witness:
  "(case SimpleField_new age_data no_calculation no_initial_data False new_world of
      (Inr this0, w0) \<Rightarrow>
        (case fire_times 1 (this0, w0) of
           (this, w) \<Rightarrow>
             dataValidator this = Some 1 \<and> live_validators (trace w) = [1]
             \<and> trace w = [MakeAutoObservable, ValueSeeded (JNum 0), AutorunCreated,
                           ValidatorCreated 0, ValidatorAssigned 0, ReactionCreated,
                           ValidatorCreated 1, ValidatorAssigned 1,
                           ValidatorDisposed 0 False (Some 1)])
    | (Inl e, w0) \<Rightarrow> False)"
proof -
  have ok: "\<not> falsy (valued (model age_data))" "\<not> falsy (valueType (model age_data))"
    by (simp_all add: age_data_def)
  from SimpleField_new_succeeds [OF ok, of no_calculation no_initial_data False new_world]
  obtain this0 w0 where
    c: "SimpleField_new age_data no_calculation no_initial_data False new_world = (Inr this0, w0)"
    by blast
  obtain this w where f: "fire_times 1 (this0, w0) = (this, w)"
    by (cases "fire_times 1 (this0, w0)")
  have t: "trace w = [MakeAutoObservable, ValueSeeded (JNum 0), AutorunCreated,
                           ValidatorCreated 0, ValidatorAssigned 0, ReactionCreated,
                           ValidatorCreated 1, ValidatorAssigned 1,
                           ValidatorDisposed 0 False (Some 1)] \<and> dataValidator this = Some 1"
    using c f
    by (auto simp: SimpleField_new_def age_data_def Let_def new_world_def emit_def
        run_autorun_def setValidator_def createDataValidator_def untracked_def
        DataValidator_dispose_def isComputed_def initialDataValue_def initialValue_def
        defaultValue_def no_initial_data_def)
  from setValidator_installs_before_disposing [OF c f] t c f
  show ?thesis by auto
qed

text \<open>
  Claim C8. \<open>setError(e)\<close> stores \<open>e\<close> in \<open>error\<close> when \<open>e\<close> is a string,
  normalizes \<open>undefined\<close> and \<open>null\<close> to \<open>error === undefined\<close>, and throws for every
  other input (numbers, objects, booleans), leaving \<open>error\<close> a string or \<open>undefined\<close>.
\<close>

theorem setError_shapes:
  "setError (JStr s) this = Inr (this\<lparr>error := Some s\<rparr>)
   \<and> setError JUndefined this = Inr (this\<lparr>error := None\<rparr>)
   \<and> setError JNull this = Inr (this\<lparr>error := None\<rparr>)
   \<and> ((\<forall>s. e \<noteq> JStr s) \<and> e \<noteq> JUndefined \<and> e \<noteq> JNull \<longrightarrow>
        (\<exists>msg. setError e this = Inl (Error msg)))"
  by (cases e) (simp_all add: setError_def)

theorem setError_shapes_witness:
  "(\<forall>s. JNum 42 \<noteq> JStr s) \<and> JNum 42 \<noteq> JUndefined \<and> JNum 42 \<noteq> JNull
   \<and> setError (JNum 42) example_field
       = Inl (Error (''Expected '' @ squote ''string | undefined | null''
                       @ '' type, got '' @ squote ''number''))
   \<and> error example_field = Some ''Required''
   \<and> map_sum id error (setError JNull example_field) = Inr None
   \<and> map_sum id error (setError (JStr ''x'') example_field) = Inr (Some ''x'')"
  using setError_shapes [of "''x''" example_field "JNum 42"]
  by (simp add: setError_def example_field_def)

text \<open>
  Claim C9. Field construction throws synchronously whenever the model's bound key
  (\<open>valued\<close>) or value type is absent, before any reactive wiring or value seeding is
  performed; with both present, construction succeeds without throwing on this account.

  The constructor tests \<open>!model.valued\<close>: a bound key that is present and is the empty
  string makes it throw as well.
\<close>

theorem empty_bound_key_counterexample:
  "valued (model unnamed_data) \<noteq> None \<and> valueType (model unnamed_data) \<noteq> None
   \<and> SimpleField_new unnamed_data no_calculation no_initial_data False new_world
       = (Inl (Error (squote ''model.valued'' @ '' is falsy'')), new_world)"
  by (simp add: unnamed_data_def SimpleField_new_def)

text \<open>
  Claim C9, amended. Field construction throws synchronously whenever the model's bound
  key or value type is absent or the empty string, before any reactive wiring or value
  seeding is performed (the world is as it was); with both present and not empty,
  construction succeeds, and its first two events are \<open>makeAutoObservable\<close> and the
  seeding of the value.
\<close>

theorem SimpleField_new_throws_iff_falsy:
  "(falsy (valued (model cd)) \<or> falsy (valueType (model cd)) \<longrightarrow>
      (\<exists>e. SimpleField_new cd calc gid deferred w = (Inl e, w)))
   \<and> (\<not> falsy (valued (model cd)) \<and> \<not> falsy (valueType (model cd)) \<longrightarrow>
      (\<exists>this w'. SimpleField_new cd calc gid deferred w = (Inr this, w')
         \<and> take 2 (drop (length (trace w)) (trace w'))
             = [MakeAutoObservable, ValueSeeded (fvalue this)]))"
proof (intro conjI impI)
  assume "falsy (valued (model cd)) \<or> falsy (valueType (model cd))"
  then show "\<exists>e. SimpleField_new cd calc gid deferred w = (Inl e, w)"
    by (rule SimpleField_new_throws)
next
  assume "\<not> falsy (valued (model cd)) \<and> \<not> falsy (valueType (model cd))"
  then have ok: "\<not> falsy (valued (model cd))" "\<not> falsy (valueType (model cd))" by simp_all
  from SimpleField_new_succeeds [OF ok, of calc gid deferred w]
  show "\<exists>this w'. SimpleField_new cd calc gid deferred w = (Inr this, w')
         \<and> take 2 (drop (length (trace w)) (trace w'))
             = [MakeAutoObservable, ValueSeeded (fvalue this)]"
    by auto
qed

theorem SimpleField_new_throws_iff_falsy_witness:
  "falsy (valueType (model (age_data\<lparr>model := (model age_data)\<lparr>valueType := None\<rparr>\<rparr>)))
   \<and> fst (SimpleField_new (age_data\<lparr>model := (model age_data)\<lparr>valueType := None\<rparr>\<rparr>)
             no_calculation no_initial_data False new_world)
       = Inl (Error (squote ''model.typeOfValue'' @ '' is undefined''))
   \<and> snd (SimpleField_new (age_data\<lparr>model := (model age_data)\<lparr>valueType := None\<rparr>\<rparr>)
             no_calculation no_initial_data False new_world) = new_world
   \<and> \<not> falsy (valued (model age_data)) \<and> \<not> falsy (valueType (model age_data))
   \<and> (case fst (SimpleField_new age_data no_calculation no_initial_data False new_world) of
        Inr this \<Rightarrow> fvalue this = JNum 0 \<and> fvalued this = ''age''
      | Inl e \<Rightarrow> False)"
  using SimpleField_new_throws_iff_falsy
      [of "age_data\<lparr>model := (model age_data)\<lparr>valueType := None\<rparr>\<rparr>"
          no_calculation no_initial_data False new_world]
    SimpleField_new_throws_iff_falsy
      [of age_data no_calculation no_initial_data False new_world]
  by (auto simp: SimpleField_new_def age_data_def Let_def new_world_def emit_def
        run_autorun_def setValidator_def createDataValidator_def untracked_def
        isComputed_def initialDataValue_def initialValue_def
        defaultValue_def no_initial_data_def)

end
